theory Spec2Isabelle
  imports Main
begin

section \<open>JavaScript values used by the version manager\<close>

text \<open>
  The plugin is a single TypeScript class, \<open>VersionManager\<close> (src/src/index.ts). Its
  version logic works on strings through \<open>replace\<close>, \<open>split\<close> and \<open>Number\<close>, so these
  three are modelled first. A \<open>char\<close> stands for the UTF-16 code unit of the same
  number; a string with a code unit above 255 has no counterpart here.

  A JavaScript number is a double. The numbers that arise here are \<open>NaN\<close>, the two
  infinities and integers: the components of a version are read by \<open>Number\<close> from
  pieces that contain neither \<open>-\<close> nor \<open>.\<close>, so they have no sign, no fraction and no
  negative exponent, and the comparator subtracts two of them. \<open>Num n\<close> is the double
  whose value is the integer \<open>n\<close>.
\<close>

datatype jsnum = NaN | Num int | PosInf | NegInf

text \<open>The number of binary digits of a natural number.\<close>

fun bit_length :: "nat \<Rightarrow> nat" where
  "bit_length n = (if n = 0 then 0 else Suc (bit_length (n div 2)))"

declare bit_length.simps [simp del]

text \<open>
  The double nearest to an integer, ties going to the even significand: an integer
  below \<open>2^53\<close> in magnitude is a double itself; a larger one keeps its 53 leading
  binary digits, rounded, and is infinite when the rounded value has more than 1024
  binary digits, that is from \<open>2^1024\<close> on.
\<close>

definition to_double :: "int \<Rightarrow> jsnum" where
  "to_double n =
     (if \<bar>n\<bar> < 2 ^ 53 then Num n
      else
        (let a = nat \<bar>n\<bar>;
             k = bit_length a - 53;
             q = a div 2 ^ k;
             r = a mod 2 ^ k;
             q' = (if 2 * r > 2 ^ k \<or> (2 * r = 2 ^ k \<and> odd q) then q + 1 else q);
             m = q' * 2 ^ k
         in if bit_length m > 1024 then (if n < 0 then NegInf else PosInf)
            else Num (if n < 0 then - int m else int m)))"

text \<open>\<open>x - y\<close> on numbers: the exact difference, rounded to a double.\<close>

fun num_sub :: "jsnum \<Rightarrow> jsnum \<Rightarrow> jsnum" where
  "num_sub NaN y = NaN"
| "num_sub x NaN = NaN"
| "num_sub (Num x) (Num y) = to_double (x - y)"
| "num_sub (Num x) PosInf = NegInf"
| "num_sub (Num x) NegInf = PosInf"
| "num_sub PosInf PosInf = NaN"
| "num_sub PosInf y = PosInf"
| "num_sub NegInf NegInf = NaN"
| "num_sub NegInf y = NegInf"

text \<open>\<open>x < y\<close> on numbers: false whenever one of them is \<open>NaN\<close>.\<close>

fun num_less :: "jsnum \<Rightarrow> jsnum \<Rightarrow> bool" where
  "num_less (Num x) (Num y) = (x < y)"
| "num_less (Num x) PosInf = True"
| "num_less NegInf (Num y) = True"
| "num_less NegInf PosInf = True"
| "num_less x y = False"

text \<open>Truthiness of a number: \<open>0\<close> and \<open>NaN\<close> are falsy.\<close>

fun truthy :: "jsnum \<Rightarrow> bool" where
  "truthy NaN = False"
| "truthy (Num x) = (x \<noteq> 0)"
| "truthy PosInf = True"
| "truthy NegInf = True"

text \<open>\<open>v || 0\<close> where \<open>v\<close> is a number or \<open>undefined\<close> (\<open>None\<close>).\<close>

definition or_zero :: "jsnum option \<Rightarrow> jsnum" where
  "or_zero v = (case v of None \<Rightarrow> Num 0 | Some x \<Rightarrow> if truthy x then x else Num 0)"

text \<open>\<open>v ?? 0\<close>: only \<open>undefined\<close> is replaced, \<open>NaN\<close> stays.\<close>

fun nullish_zero :: "jsnum option \<Rightarrow> jsnum" where
  "nullish_zero None = Num 0"
| "nullish_zero (Some v) = v"

text \<open>\<open>xs[i]\<close> on an array: \<open>undefined\<close> out of range.\<close>

definition at_index :: "'a list \<Rightarrow> nat \<Rightarrow> 'a option" where
  "at_index xs i = (if i < length xs then Some (xs ! i) else None)"

definition is_digit :: "char \<Rightarrow> bool" where
  "is_digit c = (c \<in> set ''0123456789'')"

definition digit_val :: "char \<Rightarrow> nat" where
  "digit_val c = of_char c - 48"

definition decimal :: "string \<Rightarrow> nat" where
  "decimal s = foldl (\<lambda>a c. 10 * a + digit_val c) 0 s"

text \<open>A non-empty run of decimal digits.\<close>

definition digits :: "string \<Rightarrow> bool" where
  "digits x = (x \<noteq> [] \<and> list_all is_digit x)"

text \<open>
  The white space and line terminators that \<open>Number\<close> strips from both ends of a
  string: tab, line feed, vertical tab, form feed, carriage return, space and the
  no-break space (those of them below 256).
\<close>

definition is_space :: "char \<Rightarrow> bool" where
  "is_space c = (of_char c \<in> set [9, 10, 11, 12, 13, 32, 160 :: nat])"

definition trim :: "string \<Rightarrow> string" where
  "trim s = rev (dropWhile is_space (rev (dropWhile is_space s)))"

text \<open>The digits of the literals \<open>0x\<close>, \<open>0o\<close> and \<open>0b\<close>, in either case of the letters.\<close>

definition radix_digit_val :: "char \<Rightarrow> nat" where
  "radix_digit_val c =
     (let n = of_char c in
      if 48 \<le> n \<and> n \<le> 57 then n - 48
      else if 97 \<le> n \<and> n \<le> 102 then n - 87
      else if 65 \<le> n \<and> n \<le> 70 then n - 55
      else 16)"

definition radix_digits :: "nat \<Rightarrow> string \<Rightarrow> bool" where
  "radix_digits b s = (s \<noteq> [] \<and> list_all (\<lambda>c. radix_digit_val c < b) s)"

definition radix_value :: "nat \<Rightarrow> string \<Rightarrow> nat" where
  "radix_value b s = foldl (\<lambda>a c. b * a + radix_digit_val c) 0 s"

text \<open>A literal with a radix prefix, which takes no sign: \<open>None\<close> when the string is not one.\<close>

definition radix_literal :: "string \<Rightarrow> jsnum option" where
  "radix_literal t =
     (case t of
        c0 # c1 # rest \<Rightarrow>
          if c0 \<noteq> CHR ''0'' then None
          else if (c1 = CHR ''x'' \<or> c1 = CHR ''X'') \<and> radix_digits 16 rest
            then Some (to_double (int (radix_value 16 rest)))
          else if (c1 = CHR ''o'' \<or> c1 = CHR ''O'') \<and> radix_digits 8 rest
            then Some (to_double (int (radix_value 8 rest)))
          else if (c1 = CHR ''b'' \<or> c1 = CHR ''B'') \<and> radix_digits 2 rest
            then Some (to_double (int (radix_value 2 rest)))
          else None
      | _ \<Rightarrow> None)"

text \<open>A leading \<open>+\<close>, which a decimal literal and its exponent may carry.\<close>

fun strip_plus :: "string \<Rightarrow> string" where
  "strip_plus [] = []"
| "strip_plus (c # cs) = (if c = CHR ''+'' then cs else c # cs)"

text \<open>
  An unsigned decimal literal without \<open>.\<close> and \<open>-\<close>: \<open>Infinity\<close>, or digits with an
  optional exponent \<open>e\<close> or \<open>E\<close>, itself digits with an optional \<open>+\<close>.
\<close>

definition decimal_literal :: "string \<Rightarrow> jsnum" where
  "decimal_literal u =
     (if u = ''Infinity'' then PosInf
      else
        (let m = takeWhile is_digit u; r = dropWhile is_digit u in
         if m = [] then NaN
         else if r = [] then to_double (int (decimal m))
         else if hd r = CHR ''e'' \<or> hd r = CHR ''E'' then
           (let x = strip_plus (tl r) in
            if digits x then to_double (int (decimal m * 10 ^ decimal x)) else NaN)
         else NaN))"

text \<open>
  \<open>Number(s)\<close> for a piece \<open>s\<close> that \<open>split(/[-.]/)\<close> has cut, hence without \<open>-\<close> and
  \<open>.\<close> (a string with one of the two is not a piece, and is read here as \<open>NaN\<close>). White
  space is stripped; the empty string is \<open>0\<close>; a run of digits is its decimal value;
  otherwise the string is a literal with a radix prefix, or a decimal literal with an
  optional \<open>+\<close>, or \<open>NaN\<close>. The value is rounded to the nearest double, as V8 does for
  a literal of any length.
\<close>

definition Number_js :: "string \<Rightarrow> jsnum" where
  "Number_js s =
     (let t = trim s in
      if t = [] then Num 0
      else if list_all is_digit t then to_double (int (decimal t))
      else (case radix_literal t of
              Some v \<Rightarrow> v
            | None \<Rightarrow> decimal_literal (strip_plus t)))"

text \<open>\<open>s.replace(/^v/, '')\<close>: drop one leading \<open>v\<close>.\<close>

fun replace_v :: "string \<Rightarrow> string" where
  "replace_v [] = []"
| "replace_v (c # cs) = (if c = CHR ''v'' then cs else c # cs)"

text \<open>Cutting a string at every character that satisfies \<open>sep\<close>; the result is never empty.\<close>

fun split_on :: "(char \<Rightarrow> bool) \<Rightarrow> string \<Rightarrow> string list" where
  "split_on sep [] = [[]]"
| "split_on sep (c # cs) =
     (if sep c then [] # split_on sep cs
      else (case split_on sep cs of [] \<Rightarrow> [[c]] | p # ps \<Rightarrow> (c # p) # ps))"

text \<open>\<open>s.split(/[-.]/)\<close>: the separators are \<open>-\<close> and \<open>.\<close>.\<close>

definition is_sep :: "char \<Rightarrow> bool" where
  "is_sep c = (c = CHR ''-'' \<or> c = CHR ''.'')"

definition split_sep :: "string \<Rightarrow> string list" where
  "split_sep s = split_on is_sep s"

text \<open>\<open>s.replace(/^v/, '').split(/[-.]/).map(Number)\<close>, the parse shared by both comparators.\<close>

definition components :: "string \<Rightarrow> jsnum list" where
  "components s = map Number_js (split_sep (replace_v s))"

section \<open>Errors\<close>

text \<open>
  Every failure of the plugin is a JavaScript exception. \<open>Error m\<close> is \<open>throw new Error(m)\<close>
  written in the file itself, \<open>TypeError m\<close> is the runtime's error for a property read on
  \<open>undefined\<close>, and \<open>Rejected m\<close> is the rejection of a promise of the AWS client with
  message \<open>m\<close>.
\<close>

datatype error = Error string | TypeError string | Rejected string

section \<open>Stages\<close>

text \<open>
  A stage as API Gateway returns it. Only \<open>stageName\<close> and the \<open>ALIAS\<close> entry of \<open>tags\<close>
  are read. \<open>tags = None\<close> is a stage without a tags object, \<open>Some (Tags None)\<close> a tags
  object without \<open>ALIAS\<close>. \<open>addr\<close> is the identity of the JavaScript object:
  \<open>Array.prototype.includes\<close> compares stages by identity, not by content.
\<close>

datatype tags = Tags (ALIAS: "string option")

record stage =
  addr :: nat
  stageName :: "string option"
  tags :: "tags option"

section \<open>isGreaterVersion\<close>

text \<open>
  The \<open>for\<close> loop of \<open>isGreaterVersion\<close> (lines 156-164), started at index \<open>i\<close>.
\<close>

function isGreater_loop :: "jsnum list \<Rightarrow> jsnum list \<Rightarrow> nat \<Rightarrow> bool" where
  "isGreater_loop v1 v2 i =
     (if i < max (length v1) (length v2) then
        (let num1 = or_zero (at_index v1 i); num2 = or_zero (at_index v2 i)
         in if num_less num2 num1 then True
            else if num_less num1 num2 then False
            else isGreater_loop v1 v2 (Suc i))
      else False)"
  by pat_completeness auto
termination
  by (relation "measure (\<lambda>(v1, v2, i). max (length v1) (length v2) - i)") auto

declare isGreater_loop.simps [simp del]

definition isGreaterVersion :: "string \<Rightarrow> string \<Rightarrow> bool" where
  "isGreaterVersion gr le = isGreater_loop (components gr) (components le) 0"

section \<open>semverSort\<close>

text \<open>
  The right operand of the subtraction in the callback,
  \<open>b.tags?.ALIAS.replace(/^v/, '').split(/[-.]/).map(Number)[i]\<close>: the optional chain
  yields \<open>undefined\<close> when \<open>b\<close> has no tags object, and \<open>replace\<close> on a missing \<open>ALIAS\<close>
  is a TypeError.
\<close>

definition b_component :: "stage \<Rightarrow> nat \<Rightarrow> error + jsnum option" where
  "b_component b i =
     (case tags b of
        None \<Rightarrow> Inr None
      | Some t \<Rightarrow>
          (case ALIAS t of
             None \<Rightarrow> Inl (TypeError ''Cannot read properties of undefined (reading replace)'')
           | Some s \<Rightarrow> Inr (at_index (components s) i)))"

text \<open>
  \<open>reduce((acc, cur, i) => acc || cur - (... ?? 0), 0)\<close> over the components of \<open>a\<close>
  that are left, \<open>i\<close> being the index of the first of them. The right operand of \<open>||\<close>
  is evaluated only when \<open>acc\<close> is falsy.
\<close>

fun semver_reduce :: "stage \<Rightarrow> jsnum list \<Rightarrow> nat \<Rightarrow> jsnum \<Rightarrow> error + jsnum" where
  "semver_reduce b [] i acc = Inr acc"
| "semver_reduce b (cur # rest) i acc =
     (if truthy acc then semver_reduce b rest (Suc i) acc
      else (case b_component b i of
              Inl e \<Rightarrow> Inl e
            | Inr bi \<Rightarrow> semver_reduce b rest (Suc i) (num_sub cur (nullish_zero bi))))"

text \<open>
  \<open>semverSort(a, b)\<close> (lines 148-150). \<open>a.tags!.ALIAS\<close> carries a non-null assertion only
  for the type checker: at run time a missing tags object or a missing \<open>ALIAS\<close> is a
  TypeError.
\<close>

definition semverSort :: "stage \<Rightarrow> stage \<Rightarrow> error + jsnum" where
  "semverSort a b =
     (case tags a of
        None \<Rightarrow> Inl (TypeError ''Cannot read properties of undefined (reading ALIAS)'')
      | Some t \<Rightarrow>
          (case ALIAS t of
             None \<Rightarrow> Inl (TypeError ''Cannot read properties of undefined (reading replace)'')
           | Some s \<Rightarrow> semver_reduce b (components s) 0 (Num 0)))"

section \<open>Array.prototype.sort\<close>

text \<open>
  ECMAScript leaves the sequence of comparator calls to the engine, and fixes the result
  only for a comparator that is consistent on the elements. The model follows V8, the
  engine of Node.js, on which the plugin runs (builtins/array-sort.tq). V8 returns an
  array of fewer than two elements as it is. In an array of fewer than 64 elements it
  finds the run at the start (\<open>CountAndMakeRun\<close>), reverses it when it is descending,
  and inserts every later element by a binary search in the elements before it
  (\<open>BinaryInsertionSort\<close>). The comparator always receives the later element first. A
  result \<open>NaN\<close> counts as \<open>0\<close>, and an exception of the comparator ends the sort.
\<close>

fun negative :: "jsnum \<Rightarrow> bool" where
  "negative NaN = False"
| "negative (Num x) = (x < 0)"
| "negative PosInf = False"
| "negative NegInf = True"

text \<open>
  The loop of \<open>CountAndMakeRun\<close> from the third element on: how many further elements
  continue the run that ends in \<open>prev\<close>. A descending run goes on while \<open>order < 0\<close>, an
  ascending one while \<open>order >= 0\<close>.
\<close>

fun run_extend :: "('a \<Rightarrow> 'a \<Rightarrow> error + jsnum) \<Rightarrow> bool \<Rightarrow> 'a \<Rightarrow> 'a list \<Rightarrow> error + nat" where
  "run_extend cmp desc prev [] = Inr 0"
| "run_extend cmp desc prev (c # cs) =
     (case cmp c prev of
        Inl e \<Rightarrow> Inl e
      | Inr order \<Rightarrow>
          if desc \<noteq> negative order then Inr 0
          else (case run_extend cmp desc c cs of Inl e \<Rightarrow> Inl e | Inr k \<Rightarrow> Inr (Suc k)))"

text \<open>
  \<open>CountAndMakeRun\<close> on an array of at least two elements: the first comparison,
  of the second element with the first, decides whether the run descends; the result
  is the array with a descending run reversed, and the length of the run.
\<close>

definition count_and_make_run :: "('a \<Rightarrow> 'a \<Rightarrow> error + jsnum) \<Rightarrow> 'a list \<Rightarrow> error + 'a list \<times> nat" where
  "count_and_make_run cmp xs =
     (case xs of
        x0 # x1 # rest \<Rightarrow>
          (case cmp x1 x0 of
             Inl e \<Rightarrow> Inl e
           | Inr order \<Rightarrow>
               (case run_extend cmp (negative order) x1 rest of
                  Inl e \<Rightarrow> Inl e
                | Inr k \<Rightarrow>
                    (let n = Suc (Suc k) in
                     Inr (if negative order then rev (take n xs) @ drop n xs else xs, n))))
      | _ \<Rightarrow> Inr (xs, length xs))"

text \<open>
  The binary search of \<open>BinaryInsertionSort\<close> for the place of \<open>pivot\<close> between \<open>left\<close>
  and \<open>right\<close>: \<open>order < 0\<close> moves \<open>right\<close> to the middle, anything else moves \<open>left\<close>
  past it.
\<close>

function find_place :: "('a \<Rightarrow> 'a \<Rightarrow> error + jsnum) \<Rightarrow> 'a \<Rightarrow> 'a list \<Rightarrow> nat \<Rightarrow> nat \<Rightarrow> error + nat" where
  "find_place cmp pivot arr left right =
     (if left < right then
        (let mid = left + (right - left) div 2 in
         case cmp pivot (arr ! mid) of
           Inl e \<Rightarrow> Inl e
         | Inr order \<Rightarrow>
             if negative order then find_place cmp pivot arr left mid
             else find_place cmp pivot arr (Suc mid) right)
      else Inr left)"
  by pat_completeness auto
termination
  by (relation "measure (\<lambda>(cmp, pivot, arr, left, right). right - left)") auto

declare find_place.simps [simp del]

text \<open>The element at \<open>start\<close> moves to its place among the elements before it.\<close>

definition insert_pivot :: "('a \<Rightarrow> 'a \<Rightarrow> error + jsnum) \<Rightarrow> 'a list \<Rightarrow> nat \<Rightarrow> error + 'a list" where
  "insert_pivot cmp arr start =
     (case find_place cmp (arr ! start) arr 0 start of
        Inl e \<Rightarrow> Inl e
      | Inr left \<Rightarrow>
          Inr (take left arr @ [arr ! start] @ drop left (take start arr) @ drop (Suc start) arr))"

text \<open>The outer loop of \<open>BinaryInsertionSort\<close>, from \<open>start\<close> up to \<open>high\<close>.\<close>

function binary_insertion_sort :: "('a \<Rightarrow> 'a \<Rightarrow> error + jsnum) \<Rightarrow> 'a list \<Rightarrow> nat \<Rightarrow> nat \<Rightarrow> error + 'a list" where
  "binary_insertion_sort cmp arr start high =
     (if start < high then
        (case insert_pivot cmp arr start of
           Inl e \<Rightarrow> Inl e
         | Inr arr' \<Rightarrow> binary_insertion_sort cmp arr' (Suc start) high)
      else Inr arr)"
  by pat_completeness auto
termination
  by (relation "measure (\<lambda>(cmp, arr, start, high). high - start)") auto

declare binary_insertion_sort.simps [simp del]

text \<open>The sort of an array of fewer than 64 elements.\<close>

definition sort_short :: "('a \<Rightarrow> 'a \<Rightarrow> error + jsnum) \<Rightarrow> 'a list \<Rightarrow> error + 'a list" where
  "sort_short cmp xs =
     (if length xs < 2 then Inr xs
      else (case count_and_make_run cmp xs of
              Inl e \<Rightarrow> Inl e
            | Inr (arr, n) \<Rightarrow> binary_insertion_sort cmp arr n (length xs)))"

text \<open>
  From 64 elements on V8 cuts the array into runs and merges them, which is not
  followed here: what the sort then yields is an answer of the engine, \<open>long\<close>, either
  the sorted array or the message of the TypeError that left the comparator (the
  comparator of this plugin throws nothing else).
\<close>

definition sort_js :: "('a list \<Rightarrow> string + 'a list) \<Rightarrow> ('a \<Rightarrow> 'a \<Rightarrow> error + jsnum) \<Rightarrow> 'a list \<Rightarrow> error + 'a list" where
  "sort_js long cmp xs =
     (if length xs < 64 then sort_short cmp xs
      else (case long xs of Inl m \<Rightarrow> Inl (TypeError m) | Inr ys \<Rightarrow> Inr ys))"

section \<open>The collaborators: configuration, AWS clients, log\<close>

text \<open>
  What the constructor leaves in the object: \<open>service\<close> is
  \<open>serverless.service.service\<close> (\<open>None\<close> for \<open>null\<close>), \<open>this_stage\<close> is \<open>this.stage\<close>,
  \<open>env_retainPolicy\<close> and \<open>apiVersion\<close> are the fields of \<open>this.env\<close>, and \<open>retainPolicy\<close>
  is \<open>this.retainPolicy\<close>, the number the constructor parsed and found positive.
\<close>

record config =
  service :: "string option"
  this_stage :: string
  env_retainPolicy :: "string option"
  apiVersion :: "string option"
  retainPolicy :: nat

record stack_output =
  OutputKey :: "string option"
  OutputValue :: "string option"

record stack =
  Outputs :: "stack_output list option"

record describeStacksOutput =
  Stacks :: "stack list option"

text \<open>
  What the run emits, in order: the log lines and the calls to CloudFormation's
  \<open>deleteStack\<close> and \<open>waitFor('stackDeleteComplete')\<close>.
\<close>

datatype event =
    LogInfo string | LogError string | LogSuccess string
  | DeleteStack string | WaitFor string

text \<open>
  The answers of AWS. \<open>describeStacks\<close> and \<open>getStages\<close> answer by their argument
  (\<open>getStages\<close> with \<open>stages.item\<close>, which may be absent), \<open>Inl m\<close> being a rejection
  with message \<open>m\<close>; \<open>deleteStack\<close> and \<open>waitFor\<close> answer by the events so far and the
  stack name, \<open>Some m\<close> being a rejection with message \<open>m\<close> and \<open>None\<close> a promise that
  resolves. With them stands the one answer of the JavaScript engine that the model
  takes as given: \<open>long_sort\<close>, what \<open>versionStages.sort(this.semverSort)\<close> yields for
  an array of 64 or more stages (see \<open>sort_js\<close>).
\<close>

record aws =
  describeStacks :: "string \<Rightarrow> string + describeStacksOutput"
  getStages :: "string \<Rightarrow> string + stage list option"
  deleteStack :: "event list \<Rightarrow> string \<Rightarrow> string option"
  waitFor :: "event list \<Rightarrow> string \<Rightarrow> string option"
  long_sort :: "stage list \<Rightarrow> string + stage list"

section \<open>getStagesInOrder\<close>

text \<open>\<open>stack.Stacks?.[0].Outputs\<close>: only \<open>Stacks\<close> is guarded, so an empty \<open>Stacks\<close> is a TypeError.\<close>

definition first_outputs :: "describeStacksOutput \<Rightarrow> error + stack_output list option" where
  "first_outputs d =
     (case Stacks d of
        None \<Rightarrow> Inr None
      | Some [] \<Rightarrow> Inl (TypeError ''Cannot read properties of undefined (reading Outputs)'')
      | Some (s # _) \<Rightarrow> Inr (Outputs s))"

text \<open>\<open>outputs?.find(o => o.OutputKey === 'ApiGatewayRestApi')?.OutputValue\<close>\<close>

definition restApiId_of :: "stack_output list option \<Rightarrow> string option" where
  "restApiId_of outputs =
     (case outputs of
        None \<Rightarrow> None
      | Some os \<Rightarrow>
          (case find (\<lambda>out. OutputKey out = Some ''ApiGatewayRestApi'') os of
             None \<Rightarrow> None
           | Some out \<Rightarrow> OutputValue out))"

text \<open>\<open>stage.stageName?.startsWith('v')\<close>\<close>

definition is_version_stage :: "stage \<Rightarrow> bool" where
  "is_version_stage s =
     (case stageName s of None \<Rightarrow> False | Some n \<Rightarrow> n \<noteq> [] \<and> hd n = CHR ''v'')"

definition getStagesInOrder :: "config \<Rightarrow> aws \<Rightarrow> error + stage list option" where
  "getStagesInOrder cfg w =
     (case service cfg of
        None \<Rightarrow> Inl (Error ''Service is not defined'')
      | Some svc \<Rightarrow>
          (case describeStacks w (svc @ ''-'' @ this_stage cfg) of
             Inl m \<Rightarrow> Inl (Rejected m)
           | Inr d \<Rightarrow>
               (case first_outputs d of
                  Inl e \<Rightarrow> Inl e
                | Inr outputs \<Rightarrow>
                    (case restApiId_of outputs of
                       None \<Rightarrow> Inl (Error ''Rest API ID could not be found'')
                     | Some restApiId \<Rightarrow>
                         (case getStages w restApiId of
                            Inl m \<Rightarrow> Inl (Rejected m)
                          | Inr None \<Rightarrow> Inr None
                          | Inr (Some item) \<Rightarrow>
                              (case sort_js (long_sort w) semverSort (filter is_version_stage item) of
                                 Inl e \<Rightarrow> Inl e
                               | Inr versionStages \<Rightarrow> Inr (Some versionStages)))))))"

section \<open>cleanupVersions\<close>

text \<open>
  \<open>orderedStages.slice(-n)\<close>: the last \<open>n\<close> elements, all of them when there are fewer;
  \<open>-0\<close> is \<open>0\<close>, so \<open>n = 0\<close> would return the whole array (the constructor refuses it).
\<close>

definition stagesToKeep :: "nat \<Rightarrow> stage list \<Rightarrow> stage list" where
  "stagesToKeep n orderedStages =
     (if n = 0 then orderedStages else drop (length orderedStages - n) orderedStages)"

text \<open>\<open>keep.includes(stage)\<close>: the same object, not an equal one.\<close>

definition includes_js :: "stage list \<Rightarrow> stage \<Rightarrow> bool" where
  "includes_js keep s = list_ex (\<lambda>k. addr k = addr s) keep"

definition stagesToDelete :: "nat \<Rightarrow> stage list \<Rightarrow> stage list" where
  "stagesToDelete n orderedStages =
     filter (\<lambda>s. \<not> includes_js (stagesToKeep n orderedStages) s) orderedStages"

text \<open>\<open>`${service || ''}-${this.stage}-${version}`\<close>\<close>

definition aliasStackName :: "string \<Rightarrow> string \<Rightarrow> string \<Rightarrow> string" where
  "aliasStackName svc stg version = svc @ ''-'' @ stg @ ''-'' @ version"

text \<open>
  The body of the \<open>try\<close> (lines 129-141): delete, wait, log the success. A rejection
  leaves with the message, the events so far being kept.
\<close>

definition try_remove :: "aws \<Rightarrow> string \<Rightarrow> string \<Rightarrow> event list \<Rightarrow> (string + unit) \<times> event list" where
  "try_remove w name version tr =
     (let tr1 = tr @ [DeleteStack name] in
      case deleteStack w tr name of
        Some m \<Rightarrow> (Inl m, tr1)
      | None \<Rightarrow>
          (let tr2 = tr1 @ [WaitFor name] in
           case waitFor w tr1 name of
             Some m \<Rightarrow> (Inl m, tr2)
           | None \<Rightarrow>
               (Inr (), tr2 @ [LogSuccess (''Successfully removed stack for version: '' @ version)])))"

text \<open>One iteration of the \<open>for\<close> loop (lines 115-144), the \<open>catch\<close> included.\<close>

definition retire_one :: "aws \<Rightarrow> string \<Rightarrow> string \<Rightarrow> stage \<Rightarrow> event list \<Rightarrow> (error + unit) \<times> event list" where
  "retire_one w svc stg s tr =
     (let version = (case tags s of None \<Rightarrow> None | Some t \<Rightarrow> ALIAS t) in
      case stageName s of
        None \<Rightarrow> (Inr (), tr @ [LogError ''STAGE undefined, continuing''])
      | Some n \<Rightarrow>
          (case version of
             None \<Rightarrow> (Inr (), tr @ [LogInfo (''ALIAS not present for stage '' @ n)])
           | Some v \<Rightarrow>
               (case try_remove w (aliasStackName svc stg v) v
                       (tr @ [LogInfo (''Removing stack for version: '' @ v)]) of
                  (Inr u, tr') \<Rightarrow> (Inr (), tr')
                | (Inl m, tr') \<Rightarrow>
                    (Inr (), tr' @ [LogError (''Warning: Error removing version '' @ v @ '': '' @ m)]))))"

fun retire_loop :: "aws \<Rightarrow> string \<Rightarrow> string \<Rightarrow> stage list \<Rightarrow> event list \<Rightarrow> (error + unit) \<times> event list" where
  "retire_loop w svc stg [] tr = (Inr (), tr)"
| "retire_loop w svc stg (s # ss) tr =
     (case retire_one w svc stg s tr of
        (Inl e, tr') \<Rightarrow> (Inl e, tr')
      | (Inr u, tr') \<Rightarrow> retire_loop w svc stg ss tr')"

text \<open>
  \<open>cleanupVersions\<close> (lines 104-146). The function has no \<open>return\<close>: its promise resolves
  with \<open>undefined\<close>, the unit value here, or rejects with the error.
\<close>

definition cleanupVersions :: "config \<Rightarrow> aws \<Rightarrow> (error + unit) \<times> event list" where
  "cleanupVersions cfg w =
     (case service cfg of
        None \<Rightarrow> (Inl (Error ''Service is not defined''), [])
      | Some svc \<Rightarrow>
          (case getStagesInOrder cfg w of
             Inl e \<Rightarrow> (Inl e, [])
           | Inr None \<Rightarrow> (Inl (Error ''Stages could not be determined''), [])
           | Inr (Some orderedStages) \<Rightarrow>
               retire_loop w svc (this_stage cfg)
                 (stagesToDelete (retainPolicy cfg) orderedStages) []))"

section \<open>validateVersion\<close>

text \<open>
  The test of \<open>versionRegex\<close>: a \<open>v\<close> and three runs of digits with a \<open>-\<close> between
  them, anchored at both ends. \<open>eat_digits\<close> consumes one run of digits, which is
  greedy and is followed in the pattern by a character that is not a digit, or by the
  end.
\<close>

definition eat_digits :: "string \<Rightarrow> string option" where
  "eat_digits s = (if takeWhile is_digit s = [] then None else Some (dropWhile is_digit s))"

definition eat_char :: "char \<Rightarrow> string option \<Rightarrow> string option" where
  "eat_char c r =
     (case r of None \<Rightarrow> None | Some [] \<Rightarrow> None | Some (d # ds) \<Rightarrow> if d = c then Some ds else None)"

definition versionRegex_test :: "string \<Rightarrow> bool" where
  "versionRegex_test s =
     (case eat_char (CHR ''v'') (Some s) of
        None \<Rightarrow> False
      | Some r1 \<Rightarrow>
          (case eat_char (CHR ''-'') (eat_digits r1) of
             None \<Rightarrow> False
           | Some r2 \<Rightarrow>
               (case eat_char (CHR ''-'') (eat_digits r2) of
                  None \<Rightarrow> False
                | Some r3 \<Rightarrow> eat_digits r3 = Some [])))"

text \<open>\<open>x || 'undefined stage'\<close> on an optional string: the empty string is falsy too.\<close>

definition or_undefined_stage :: "string option \<Rightarrow> string" where
  "or_undefined_stage n = (case n of None \<Rightarrow> ''undefined stage'' | Some m \<Rightarrow> if m = [] then ''undefined stage'' else m)"

text \<open>
  Lines 190-199, after the registry has answered: the comparison with the last stage and
  the closing log line. The guard is \<open>lastStage?.tags\<close>, the tags object; a tags object
  without \<open>ALIAS\<close> passes it, and \<open>lesser.replace\<close> in \<open>isGreaterVersion\<close> is then a
  TypeError.
\<close>

definition validate_last :: "string \<Rightarrow> string \<Rightarrow> stage list option \<Rightarrow> (error + unit) \<times> event list" where
  "validate_last candidate policy orderedStages =
     (let lastStage = (case orderedStages of None \<Rightarrow> None | Some [] \<Rightarrow> None | Some (x # xs) \<Rightarrow> Some (last (x # xs)));
          done = [LogInfo (''Using retention policy: '' @ policy @ '' versions'')]
      in case lastStage of
           None \<Rightarrow> (Inr (), done)
         | Some l \<Rightarrow>
             (case tags l of
                None \<Rightarrow> (Inr (), done)
              | Some t \<Rightarrow>
                  (let tr = [LogInfo (''Last deployed version: '' @ or_undefined_stage (stageName l))] in
                   case ALIAS t of
                     None \<Rightarrow> (Inl (TypeError ''Cannot read properties of undefined (reading replace)''), tr)
                   | Some latest \<Rightarrow>
                       if \<not> isGreaterVersion candidate latest then
                         (Inl (Error (''The version provided: ('' @ candidate @ '') should be greater than '' @ latest)), tr)
                       else (Inr (), tr @ done))))"

definition validateVersion :: "config \<Rightarrow> aws \<Rightarrow> (error + unit) \<times> event list" where
  "validateVersion cfg w =
     (let missing = (Inl (Error ''retainPolicy must be configured in custom.versionManager.retainPolicy''), [])
      in case env_retainPolicy cfg of
           None \<Rightarrow> missing
         | Some policy \<Rightarrow>
             if policy = [] then missing
             else
               (case apiVersion cfg of
                  None \<Rightarrow> (Inl (Error ''apiVersion must be provided''), [])
                | Some candidate \<Rightarrow>
                    if candidate \<noteq> [] \<and> \<not> versionRegex_test candidate then
                      (Inl (Error ''apiVersion must be in format vX-Y-Z (e.g., v3-2-0)''), [])
                    else
                      (case getStagesInOrder cfg w of
                         Inl e \<Rightarrow> (Inl e, [])
                       | Inr orderedStages \<Rightarrow> validate_last candidate policy orderedStages)))"

section \<open>The specification's version tokens\<close>

text \<open>
  The definitions of this section follow the words of the specification, not the code:
  a version token is the tuple of non-negative integers written \<open>v<int>(-<int>)*\<close>, and
  \<open>compare\<close> is the component-wise integer comparison from left to right in which a
  missing trailing component counts as zero. A component is kept within the integers
  that a JavaScript number holds exactly (below \<open>2^53\<close>).
\<close>

datatype ordering = LESS | EQUAL | GREATER

definition is_dash :: "char \<Rightarrow> bool" where
  "is_dash c = (c = CHR ''-'')"

definition valid_component :: "string \<Rightarrow> bool" where
  "valid_component p = (p \<noteq> [] \<and> list_all is_digit p \<and> decimal p < 2 ^ 53)"

definition valid_token :: "string \<Rightarrow> bool" where
  "valid_token s =
     (case s of [] \<Rightarrow> False
      | c # r \<Rightarrow> c = CHR ''v'' \<and> list_all valid_component (split_on is_dash r))"

definition parse_token :: "string \<Rightarrow> nat list" where
  "parse_token s = map decimal (split_on is_dash (tl s))"

fun compare_tokens :: "nat list \<Rightarrow> nat list \<Rightarrow> ordering" where
  "compare_tokens [] [] = EQUAL"
| "compare_tokens (x # xs) [] =
     (if x > 0 then GREATER else compare_tokens xs [])"
| "compare_tokens [] (y # ys) =
     (if 0 < y then LESS else compare_tokens [] ys)"
| "compare_tokens (x # xs) (y # ys) =
     (if x < y then LESS else if x > y then GREATER else compare_tokens xs ys)"

text \<open>
  The shape the specification gives for a candidate, \<open>v<int>(-<int>)*\<close>: the marker
  and one or more integers separated by \<open>-\<close>.
\<close>

definition spec_shape :: "string \<Rightarrow> bool" where
  "spec_shape s =
     (case s of [] \<Rightarrow> False
      | c # r \<Rightarrow> c = CHR ''v'' \<and> list_all (\<lambda>p. p \<noteq> [] \<and> list_all is_digit p) (split_on is_dash r))"

section \<open>Reading the run from its events\<close>

text \<open>
  The rejection that the body of the \<open>try\<close> meets for a stack, if any: that of
  \<open>deleteStack\<close>, else that of \<open>waitFor\<close>.
\<close>

definition rejection :: "aws \<Rightarrow> string \<Rightarrow> event list \<Rightarrow> string option" where
  "rejection w name tr =
     (case deleteStack w tr name of
        Some m \<Rightarrow> Some m
      | None \<Rightarrow> waitFor w (tr @ [DeleteStack name]) name)"

text \<open>
  The log line that closes the iteration of one retired record: the success line, an
  error line, or the line for a missing \<open>ALIAS\<close>.
\<close>

definition starts_with :: "string \<Rightarrow> string \<Rightarrow> bool" where
  "starts_with p m = (take (length p) m = p)"

definition closing :: "event \<Rightarrow> bool" where
  "closing e =
     (case e of
        LogSuccess m \<Rightarrow> True
      | LogError m \<Rightarrow> True
      | LogInfo m \<Rightarrow> starts_with ''ALIAS not present for stage '' m
      | DeleteStack n \<Rightarrow> False
      | WaitFor n \<Rightarrow> False)"

text \<open>The \<open>deleteStack\<close> call that the loop owes to a record: none for a record it skips.\<close>

definition delete_call :: "string \<Rightarrow> string \<Rightarrow> stage \<Rightarrow> event list" where
  "delete_call svc stg s =
     (case stageName s of
        None \<Rightarrow> []
      | Some n \<Rightarrow>
          (case tags s of
             None \<Rightarrow> []
           | Some t \<Rightarrow>
               (case ALIAS t of
                  None \<Rightarrow> []
                | Some v \<Rightarrow> [DeleteStack (aliasStackName svc stg v)])))"

definition is_DeleteStack :: "event \<Rightarrow> bool" where
  "is_DeleteStack e = (case e of DeleteStack n \<Rightarrow> True | _ \<Rightarrow> False)"

definition is_LogSuccess :: "event \<Rightarrow> bool" where
  "is_LogSuccess e = (case e of LogSuccess m \<Rightarrow> True | _ \<Rightarrow> False)"

definition is_LogError :: "event \<Rightarrow> bool" where
  "is_LogError e = (case e of LogError m \<Rightarrow> True | _ \<Rightarrow> False)"

section \<open>Example runs\<close>

text \<open>A service \<open>api\<close> on stage \<open>prod\<close> that keeps \<open>n\<close> versions and proposes \<open>candidate\<close>.\<close>

definition example_config :: "nat \<Rightarrow> string \<Rightarrow> config" where
  "example_config n candidate =
     \<lparr>service = Some ''api'', this_stage = ''prod'', env_retainPolicy = Some ''2'',
      apiVersion = Some candidate, retainPolicy = n\<rparr>"

definition example_stage :: "nat \<Rightarrow> string \<Rightarrow> stage" where
  "example_stage a v = \<lparr>addr = a, stageName = Some v, tags = Some (Tags (Some v))\<rparr>"

text \<open>
  An account whose stack \<open>api-prod\<close> exports the REST API \<open>r1\<close> with the stages \<open>item\<close>;
  deleting a stack is rejected with the message \<open>fails name\<close> gives, and every wait
  resolves.
\<close>

definition example_aws :: "stage list \<Rightarrow> (string \<Rightarrow> string option) \<Rightarrow> aws" where
  "example_aws item fails =
     \<lparr>describeStacks = (\<lambda>name.
        if name = ''api-prod'' then
          Inr \<lparr>Stacks = Some [\<lparr>Outputs = Some [\<lparr>OutputKey = Some ''ApiGatewayRestApi'', OutputValue = Some ''r1''\<rparr>]\<rparr>]\<rparr>
        else Inl ''Stack does not exist''),
      getStages = (\<lambda>restApiId.
        if restApiId = ''r1'' then Inr (Some item) else Inl ''Invalid API identifier''),
      deleteStack = (\<lambda>tr name. fails name),
      waitFor = (\<lambda>tr name. None),
      long_sort = (\<lambda>xs. Inr xs)\<rparr>"

definition no_failure :: "string \<Rightarrow> string option" where
  "no_failure name = None"

text \<open>The deletion of the stack of \<open>v1-0-0\<close> is denied.\<close>

definition first_fails :: "string \<Rightarrow> string option" where
  "first_fails name = (if name = ''api-prod-v1-0-0'' then Some ''denied'' else None)"

text \<open>Five deployed versions, already in ascending order, each its own object.\<close>

definition five_versions :: "stage list" where
  "five_versions =
     [example_stage 0 ''v1-0-0'', example_stage 1 ''v1-1-0'', example_stage 2 ''v1-2-0'',
      example_stage 3 ''v1-3-0'', example_stage 4 ''v1-4-0'']"

text \<open>Three deployed versions, the oldest first.\<close>

definition three_versions :: "stage list" where
  "three_versions =
     [example_stage 0 ''v1-0-0'', example_stage 1 ''v1-1-0'', example_stage 2 ''v1-2-0'']"

text \<open>A stage whose tags object has no \<open>ALIAS\<close> entry.\<close>

definition untagged_stage :: "nat \<Rightarrow> string \<Rightarrow> stage" where
  "untagged_stage a n = \<lparr>addr = a, stageName = Some n, tags = Some (Tags None)\<rparr>"

text \<open>Tags with unequal numbers of components, in the order of their discovery.\<close>

definition uneven_versions :: "stage list" where
  "uneven_versions = [example_stage 0 ''v1-0-1'', example_stage 1 ''v1'', example_stage 2 ''v9'']"

text \<open>Four versions with tags of unequal length, in the order of their discovery.\<close>

definition mixed_versions :: "stage list" where
  "mixed_versions =
     [example_stage 0 ''v1-0-5'', example_stage 1 ''v0'', example_stage 2 ''v1'',
      example_stage 3 ''v1-0-3'']"

section \<open>Properties of the comparison\<close>

subsection \<open>Parsing a valid token\<close>

lemma split_on_nonempty: "split_on sep s \<noteq> []"
  by (induction s) (auto split: list.splits)

lemma split_on_cong: "(\<forall>c \<in> set s. P c = Q c) \<Longrightarrow> split_on P s = split_on Q s"
  by (induction s) (auto split: list.splits)

lemma split_on_covers:
  "c \<in> set s \<Longrightarrow> sep c \<or> (\<exists>p \<in> set (split_on sep s). c \<in> set p)"
proof (induction s)
  case Nil
  then show ?case by simp
next
  case (Cons d s)
  then show ?case
    using split_on_nonempty [of sep s]
    by (cases "split_on sep s") (auto split: list.splits)
qed

lemma is_digit_not_sep: "is_digit c \<Longrightarrow> \<not> is_sep c"
  by (auto simp: is_digit_def is_sep_def)

lemma is_dash_sep: "is_dash c \<Longrightarrow> is_sep c"
  by (simp add: is_dash_def is_sep_def)

lemma to_double_small: "\<bar>n\<bar> < 2 ^ 53 \<Longrightarrow> to_double n = Num n"
  by (simp add: to_double_def)

lemma is_digit_not_space: "is_digit c \<Longrightarrow> \<not> is_space c"
  by (auto simp: is_digit_def is_space_def)

lemma trim_digits:
  assumes "digits p"
  shows "trim p = p"
proof -
  from assms obtain c cs where p: "p = c # cs" and all: "\<forall>d \<in> set p. is_digit d"
    by (cases p) (auto simp: digits_def list_all_iff)
  then have "\<not> is_space c" by (simp add: is_digit_not_space)
  then have front: "dropWhile is_space p = p" by (simp add: p)
  from p have "rev p \<noteq> []" by simp
  then obtain d ds where r: "rev p = d # ds" by (cases "rev p") auto
  then have "d \<in> set p" by (metis list.set_intros(1) set_rev)
  with all have "\<not> is_space d" by (simp add: is_digit_not_space)
  then have "dropWhile is_space (rev p) = rev p" by (simp add: r)
  with front show ?thesis by (simp add: trim_def)
qed

text \<open>On a valid component \<open>Number\<close> is the decimal value, held exactly.\<close>

lemma Number_js_valid_component:
  assumes "valid_component p"
  shows "Number_js p = Num (int (decimal p))"
proof -
  from assms have d: "digits p" and b: "decimal p < 2 ^ 53"
    by (simp_all add: valid_component_def digits_def)
  from b have "\<bar>int (decimal p)\<bar> < 2 ^ 53"
    by (metis abs_of_nat of_nat_less_iff of_nat_numeral of_nat_power)
  with d show ?thesis
    by (simp add: Number_js_def trim_digits to_double_small digits_def Let_def)
qed

text \<open>The pieces of a split hold no separator, so \<open>Number_js\<close> is only ever given pieces.\<close>

lemma split_on_pieces:
  "\<forall>p \<in> set (split_on sep s). \<forall>c \<in> set p. \<not> sep c"
proof (induction s)
  case Nil
  show ?case by simp
next
  case (Cons d s)
  show ?case
  proof (cases "split_on sep s")
    case Nil
    then show ?thesis using split_on_nonempty [of sep s] by simp
  next
    case (Cons q qs)
    with Cons.IH show ?thesis by auto
  qed
qed

lemma valid_token_components:
  assumes "valid_token s"
  shows "components s = map (\<lambda>n. Num (int n)) (parse_token s)"
proof -
  from assms obtain r where s: "s = CHR ''v'' # r"
    and v: "list_all valid_component (split_on is_dash r)"
    by (cases s) (simp_all add: valid_token_def)
  have vc: "valid_component p" if "p \<in> set (split_on is_dash r)" for p
    using v that by (simp add: list_all_iff)
  have dig: "list_all is_digit p" if "p \<in> set (split_on is_dash r)" for p
    using vc [OF that] by (simp add: valid_component_def)
  have "\<forall>c \<in> set r. is_sep c = is_dash c"
  proof
    fix c assume c: "c \<in> set r"
    show "is_sep c = is_dash c"
    proof (cases "is_dash c")
      case True
      then show ?thesis by (simp add: is_dash_sep)
    next
      case False
      with split_on_covers [OF c, of is_dash]
      obtain p where "p \<in> set (split_on is_dash r)" "c \<in> set p" by blast
      with dig have "is_digit c" by (simp add: list_all_iff)
      with False show ?thesis by (simp add: is_digit_not_sep)
    qed
  qed
  then have "split_on is_sep r = split_on is_dash r"
    by (rule split_on_cong)
  moreover have "map Number_js (split_on is_dash r) = map (\<lambda>n. Num (int n)) (map decimal (split_on is_dash r))"
    using vc by (simp add: Number_js_valid_component)
  ultimately show ?thesis
    by (simp add: components_def split_sep_def parse_token_def s)
qed

subsection \<open>The loop of isGreaterVersion is the comparison of the specification\<close>

lemma or_zero_at_index_map:
  "or_zero (at_index (map (\<lambda>n. Num (int n)) xs) i)
     = Num (if i < length xs then int (xs ! i) else 0)"
  by (simp add: at_index_def or_zero_def)

lemma isGreater_loop_compare:
  "isGreater_loop (map (\<lambda>n. Num (int n)) xs) (map (\<lambda>n. Num (int n)) ys) i
     = (compare_tokens (drop i xs) (drop i ys) = GREATER)"
proof (induction "max (length xs) (length ys) - i" arbitrary: i)
  case 0
  then have "\<not> i < max (length xs) (length ys)" by linarith
  then show ?case
    by (subst isGreater_loop.simps) simp
next
  case (Suc k)
  then have lt: "i < max (length xs) (length ys)" by linarith
  have IH: "isGreater_loop (map (\<lambda>n. Num (int n)) xs) (map (\<lambda>n. Num (int n)) ys) (Suc i)
     = (compare_tokens (drop (Suc i) xs) (drop (Suc i) ys) = GREATER)"
    using Suc by (intro Suc.hyps(1)) linarith
  consider (both) "i < length xs" "i < length ys"
    | (left) "i < length xs" "length ys \<le> i"
    | (right) "length xs \<le> i" "i < length ys"
    using lt by linarith
  then show ?case
  proof cases
    case both
    then have d: "drop i xs = xs ! i # drop (Suc i) xs" "drop i ys = ys ! i # drop (Suc i) ys"
      by (simp_all add: Cons_nth_drop_Suc)
    show ?thesis
      using both IH lt
      by (subst isGreater_loop.simps)
         (simp add: d or_zero_at_index_map Let_def)
  next
    case left
    then have d: "drop i xs = xs ! i # drop (Suc i) xs" "drop i ys = []" "drop (Suc i) ys = []"
      by (simp_all add: Cons_nth_drop_Suc)
    show ?thesis
      using left IH lt
      by (subst isGreater_loop.simps)
         (simp add: d or_zero_at_index_map Let_def)
  next
    case right
    then have d: "drop i ys = ys ! i # drop (Suc i) ys" "drop i xs = []" "drop (Suc i) xs = []"
      by (simp_all add: Cons_nth_drop_Suc)
    show ?thesis
      using right IH lt
      by (subst isGreater_loop.simps)
         (simp add: d or_zero_at_index_map Let_def)
  qed
qed

lemma compare_tokens_flip:
  "compare_tokens ys xs = (case compare_tokens xs ys of LESS \<Rightarrow> GREATER | EQUAL \<Rightarrow> EQUAL | GREATER \<Rightarrow> LESS)"
  by (induction xs ys rule: compare_tokens.induct) auto

lemma isGreaterVersion_is_GREATER:
  assumes "valid_token a" "valid_token b"
  shows "isGreaterVersion a b = (compare_tokens (parse_token a) (parse_token b) = GREATER)"
  using assms isGreater_loop_compare [of "parse_token a" "parse_token b" 0]
  by (simp add: isGreaterVersion_def valid_token_components)

lemmas token_eval =
  valid_token_def valid_component_def parse_token_def is_dash_def is_digit_def
  decimal_def digit_val_def

lemmas components_eval =
  components_def split_sep_def is_sep_def Number_js_def trim_def is_space_def
  to_double_def is_digit_def decimal_def digit_val_def

lemmas isGreaterVersion_eval =
  isGreaterVersion_def components_eval isGreater_loop.simps at_index_def or_zero_def

text \<open>
  Claim C8. On valid version tokens the comparison that \<open>isGreaterVersion\<close> performs is
  the component-wise comparison of the parsed integers from left to right, a missing
  trailing component counting as zero: the token comparison of the specification is
  GREATER exactly when \<open>isGreaterVersion a b\<close>, LESS exactly when
  \<open>isGreaterVersion b a\<close>, and EQUAL otherwise. It is numeric, not lexicographic on
  the strings: \<open>v2-10-0\<close> is greater than \<open>v2-9-9\<close>, and \<open>v1\<close> and \<open>v1-0-0\<close> are
  equal (neither is greater than the other).
\<close>

theorem isGreaterVersion_componentwise:
  assumes "valid_token a" "valid_token b"
  shows "compare_tokens (parse_token a) (parse_token b)
           = (if isGreaterVersion a b then GREATER
              else if isGreaterVersion b a then LESS else EQUAL)
         \<and> isGreaterVersion ''v2-10-0'' ''v2-9-9''
         \<and> \<not> isGreaterVersion ''v1'' ''v1-0-0'' \<and> \<not> isGreaterVersion ''v1-0-0'' ''v1''"
proof -
  have g: "isGreaterVersion a b = (compare_tokens (parse_token a) (parse_token b) = GREATER)"
    "isGreaterVersion b a = (compare_tokens (parse_token b) (parse_token a) = GREATER)"
    using assms by (simp_all add: isGreaterVersion_is_GREATER)
  have general: "compare_tokens (parse_token a) (parse_token b)
           = (if isGreaterVersion a b then GREATER
              else if isGreaterVersion b a then LESS else EQUAL)"
    unfolding g
    by (subst (3) compare_tokens_flip)
       (cases "compare_tokens (parse_token a) (parse_token b)"; simp)
  have e1: "isGreaterVersion ''v2-10-0'' ''v2-9-9''"
    by (simp add: isGreaterVersion_eval)
  have e2: "\<not> isGreaterVersion ''v1'' ''v1-0-0''"
    by (simp add: isGreaterVersion_eval)
  have e3: "\<not> isGreaterVersion ''v1-0-0'' ''v1''"
    by (simp add: isGreaterVersion_eval)
  from general e1 e2 e3 show ?thesis by simp
qed

theorem isGreaterVersion_componentwise_witness:
  "valid_token ''v2-10-0'' \<and> valid_token ''v2-9-9''
   \<and> parse_token ''v2-10-0'' = [2, 10, 0] \<and> parse_token ''v2-9-9'' = [2, 9, 9]
   \<and> compare_tokens [2, 10, 0] [2, 9, 9] = GREATER
   \<and> isGreaterVersion ''v2-10-0'' ''v2-9-9''"
proof -
  have va: "valid_token ''v2-10-0''" by (simp add: token_eval)
  have vb: "valid_token ''v2-9-9''" by (simp add: token_eval)
  have pa: "parse_token ''v2-10-0'' = [2, 10, 0]" by (simp add: token_eval)
  have pb: "parse_token ''v2-9-9'' = [2, 9, 9]" by (simp add: token_eval)
  from isGreaterVersion_componentwise [OF va vb] va vb pa pb show ?thesis by simp
qed

section \<open>Properties of the retention plan\<close>

lemma includes_js_iff: "includes_js keep s = (addr s \<in> addr ` set keep)"
proof -
  have "(\<exists>k \<in> set keep. addr k = addr s) = (\<exists>k \<in> set keep. addr s = addr k)"
    by (rule bex_cong [OF refl]) (rule eq_commute)
  then show ?thesis
    by (simp add: includes_js_def list_ex_iff image_iff)
qed

lemma filter_not_in_suffix:
  assumes "distinct (map addr (xs @ ys))"
  shows "filter (\<lambda>s. addr s \<notin> addr ` set ys) (xs @ ys) = xs"
proof -
  have "filter (\<lambda>s. addr s \<notin> addr ` set ys) xs = xs"
    using assms by (auto simp: filter_id_conv)
  moreover have "filter (\<lambda>s. addr s \<notin> addr ` set ys) ys = []"
    by (auto simp: filter_empty_conv)
  ultimately show ?thesis by simp
qed

lemma stagesToDelete_take:
  assumes "0 < n" "distinct (map addr ordered)"
  shows "stagesToDelete n ordered = take (length ordered - n) ordered"
proof -
  let ?k = "length ordered - n"
  have "distinct (map addr (take ?k ordered @ drop ?k ordered))"
    using assms(2) by simp
  from filter_not_in_suffix [OF this] show ?thesis
    using assms(1) by (simp add: stagesToDelete_def stagesToKeep_def includes_js_iff)
qed

text \<open>
  Claim C2. For every list of deployed versions (distinct objects, as the registry
  returns them) and every positive retention count \<open>n\<close>, the kept stages are the tail of
  length \<open>min n (length ordered)\<close>, the retired stages are the prefix before it, the
  two are disjoint and together are the input in its order. An empty input gives two
  empty lists, and a retention count of at least the length retires nothing.
\<close>

theorem retention_partition:
  assumes "0 < n" "distinct (map addr ordered)"
  shows "stagesToKeep n ordered = drop (length ordered - min n (length ordered)) ordered
       \<and> length (stagesToKeep n ordered) = min n (length ordered)
       \<and> stagesToDelete n ordered = take (length ordered - min n (length ordered)) ordered
       \<and> stagesToDelete n ordered @ stagesToKeep n ordered = ordered
       \<and> set (stagesToKeep n ordered) \<inter> set (stagesToDelete n ordered) = {}
       \<and> (ordered = [] \<longrightarrow> stagesToKeep n ordered = [] \<and> stagesToDelete n ordered = [])
       \<and> (length ordered \<le> n \<longrightarrow> stagesToKeep n ordered = ordered \<and> stagesToDelete n ordered = [])"
proof -
  have m: "length ordered - min n (length ordered) = length ordered - n" by simp
  have k: "stagesToKeep n ordered = drop (length ordered - n) ordered"
    using assms(1) by (simp add: stagesToKeep_def)
  have d: "stagesToDelete n ordered = take (length ordered - n) ordered"
    using assms by (rule stagesToDelete_take)
  have "distinct ordered" using assms(2) by (simp add: distinct_map)
  then have "distinct (take (length ordered - n) ordered @ drop (length ordered - n) ordered)"
    by simp
  then have disj: "set (drop (length ordered - n) ordered) \<inter> set (take (length ordered - n) ordered) = {}"
    by (simp only: distinct_append) blast
  show ?thesis
    unfolding m k d using disj by auto
qed

theorem retention_partition_witness:
  "0 < (2::nat) \<and> distinct (map addr five_versions)
   \<and> stagesToKeep 2 five_versions = [example_stage 3 ''v1-3-0'', example_stage 4 ''v1-4-0'']
   \<and> stagesToDelete 2 five_versions
       = [example_stage 0 ''v1-0-0'', example_stage 1 ''v1-1-0'', example_stage 2 ''v1-2-0'']"
proof -
  have p: "0 < (2::nat)" by simp
  have d: "distinct (map addr five_versions)"
    by (simp add: five_versions_def example_stage_def)
  from retention_partition [OF p d] p d show ?thesis
    by (simp add: five_versions_def)
qed

section \<open>Properties of the retirement loop\<close>

lemma try_remove_rejection:
  "fst (try_remove w name v tr) = (case rejection w name tr of Some m \<Rightarrow> Inl m | None \<Rightarrow> Inr ())"
  by (simp add: try_remove_def rejection_def Let_def split: option.splits)

lemma retire_one_returns: "fst (retire_one w svc stg s tr) = Inr ()"
  by (simp add: retire_one_def Let_def split: option.splits prod.splits sum.splits)

lemma retire_loop_returns: "fst (retire_loop w svc stg ss tr) = Inr ()"
proof (induction ss arbitrary: tr)
  case Nil
  show ?case by simp
next
  case (Cons s ss)
  obtain tr' where "retire_one w svc stg s tr = (Inr (), tr')"
    using retire_one_returns [of w svc stg s tr] by (cases "retire_one w svc stg s tr") auto
  then show ?case using Cons.IH by simp
qed

lemma retire_loop_Cons:
  "retire_loop w svc stg (s # ss) tr = retire_loop w svc stg ss (snd (retire_one w svc stg s tr))"
proof -
  obtain tr' where "retire_one w svc stg s tr = (Inr (), tr')"
    using retire_one_returns [of w svc stg s tr] by (cases "retire_one w svc stg s tr") auto
  then show ?thesis by simp
qed

lemma retire_loop_append:
  "retire_loop w svc stg (xs @ ys) tr = retire_loop w svc stg ys (snd (retire_loop w svc stg xs tr))"
  by (induction xs arbitrary: tr) (simp_all add: retire_loop_Cons del: retire_loop.simps(2))

lemma retire_one_grows: "\<exists>ev. snd (retire_one w svc stg s tr) = tr @ ev"
  by (simp add: retire_one_def try_remove_def Let_def split: option.splits prod.splits sum.splits)

lemma retire_loop_grows: "\<exists>ev. snd (retire_loop w svc stg ss tr) = tr @ ev"
proof (induction ss arbitrary: tr)
  case Nil
  show ?case by simp
next
  case (Cons s ss)
  obtain e1 where e1: "snd (retire_one w svc stg s tr) = tr @ e1"
    using retire_one_grows by blast
  obtain e2 where "snd (retire_loop w svc stg ss (tr @ e1)) = (tr @ e1) @ e2"
    using Cons.IH by blast
  then show ?case
    by (simp add: retire_loop_Cons e1 del: retire_loop.simps(2))
qed

text \<open>A record whose stage name and tag are readable has its stack deleted, whatever AWS answers.\<close>

lemma retire_one_attempts:
  assumes "stageName s = Some n" "tags s = Some (Tags (Some v))"
  shows "\<exists>ev. snd (retire_one w svc stg s tr) = tr @ ev \<and> DeleteStack (aliasStackName svc stg v) \<in> set ev"
  using assms
  by (simp add: retire_one_def try_remove_def Let_def split: option.splits prod.splits sum.splits)

lemma retire_one_rejected:
  assumes "stageName s = Some n" "tags s = Some (Tags (Some v))"
    and "rejection w (aliasStackName svc stg v) (tr @ [LogInfo (''Removing stack for version: '' @ v)]) = Some m"
  shows "\<exists>ev. snd (retire_one w svc stg s tr)
           = tr @ ev @ [LogError (''Warning: Error removing version '' @ v @ '': '' @ m)]"
  using assms
  by (auto simp add: retire_one_def try_remove_def rejection_def Let_def split: option.splits prod.splits sum.splits)

lemma retire_loop_attempts:
  assumes "t \<in> set ss" "stageName t = Some n" "tags t = Some (Tags (Some v))"
  shows "\<exists>ev. snd (retire_loop w svc stg ss tr) = tr @ ev \<and> DeleteStack (aliasStackName svc stg v) \<in> set ev"
  using assms(1)
proof (induction ss arbitrary: tr)
  case Nil
  then show ?case by simp
next
  case (Cons s ss)
  show ?case
  proof (cases "t = s")
    case True
    obtain e1 where e1: "snd (retire_one w svc stg s tr) = tr @ e1"
      "DeleteStack (aliasStackName svc stg v) \<in> set e1"
      using retire_one_attempts [OF assms(2,3)] True by blast
    obtain e2 where "snd (retire_loop w svc stg ss (tr @ e1)) = (tr @ e1) @ e2"
      using retire_loop_grows by blast
    then show ?thesis
      using e1 by (simp add: retire_loop_Cons del: retire_loop.simps(2))
  next
    case False
    with Cons.prems have "t \<in> set ss" by simp
    obtain e1 where e1: "snd (retire_one w svc stg s tr) = tr @ e1"
      using retire_one_grows by blast
    obtain e2 where "snd (retire_loop w svc stg ss (tr @ e1)) = (tr @ e1) @ e2"
      "DeleteStack (aliasStackName svc stg v) \<in> set e2"
      using Cons.IH [OF \<open>t \<in> set ss\<close>] by blast
    then show ?thesis
      using e1 by (simp add: retire_loop_Cons del: retire_loop.simps(2))
  qed
qed

text \<open>
  Claim C1. Let \<open>s\<close> be any record of the retire list with a readable stage name and
  tag, and let its teardown be rejected with message \<open>m\<close>, by \<open>deleteStack\<close> or by
  \<open>waitFor\<close>. Then the loop still returns normally; the iteration of \<open>s\<close> ends with
  the error line that names the version and \<open>m\<close>; and in the events after that line
  every later readable record of the list has its \<open>deleteStack\<close> call.
\<close>

theorem cleanup_failure_isolation:
  assumes "stageName s = Some n" "tags s = Some (Tags (Some v))"
    and "rejection w (aliasStackName svc stg v)
           (snd (retire_loop w svc stg before tr) @ [LogInfo (''Removing stack for version: '' @ v)])
         = Some m"
  shows "fst (retire_loop w svc stg (before @ s # after) tr) = Inr ()
       \<and> (\<exists>ev rest.
             snd (retire_loop w svc stg (before @ [s]) tr)
               = ev @ [LogError (''Warning: Error removing version '' @ v @ '': '' @ m)]
           \<and> snd (retire_loop w svc stg (before @ s # after) tr)
               = ev @ [LogError (''Warning: Error removing version '' @ v @ '': '' @ m)] @ rest
           \<and> (\<forall>t \<in> set after. \<forall>n' v'.
                 stageName t = Some n' \<and> tags t = Some (Tags (Some v'))
                 \<longrightarrow> DeleteStack (aliasStackName svc stg v') \<in> set rest))"
proof -
  let ?tb = "snd (retire_loop w svc stg before tr)"
  let ?err = "LogError (''Warning: Error removing version '' @ v @ '': '' @ m)"
  obtain e1 where e1: "snd (retire_one w svc stg s ?tb) = ?tb @ e1 @ [?err]"
    using retire_one_rejected [OF assms] by blast
  have s1: "snd (retire_loop w svc stg (before @ [s]) tr) = (?tb @ e1) @ [?err]"
    by (simp add: retire_loop_append retire_loop_Cons e1 del: retire_loop.simps(2))
  have split: "retire_loop w svc stg (before @ s # after) tr
      = retire_loop w svc stg after ((?tb @ e1) @ [?err])"
    using retire_loop_append [of w svc stg "before @ [s]" after tr] s1 by simp
  obtain rest where rest: "snd (retire_loop w svc stg after ((?tb @ e1) @ [?err])) = ((?tb @ e1) @ [?err]) @ rest"
    using retire_loop_grows by blast
  have att: "DeleteStack (aliasStackName svc stg v') \<in> set rest"
    if h: "t \<in> set after" "stageName t = Some n'" "tags t = Some (Tags (Some v'))" for t n' v'
  proof -
    obtain ev where "snd (retire_loop w svc stg after ((?tb @ e1) @ [?err])) = ((?tb @ e1) @ [?err]) @ ev"
      "DeleteStack (aliasStackName svc stg v') \<in> set ev"
      using retire_loop_attempts [OF h] by blast
    with rest show ?thesis by simp
  qed
  have "snd (retire_loop w svc stg (before @ s # after) tr) = (?tb @ e1) @ [?err] @ rest"
    using split rest by simp
  with s1 att show ?thesis
    using retire_loop_returns by blast
qed

theorem cleanup_failure_isolation_witness:
  "stageName (example_stage 0 ''v1-0-0'') = Some ''v1-0-0''
   \<and> tags (example_stage 0 ''v1-0-0'') = Some (Tags (Some ''v1-0-0''))
   \<and> rejection (example_aws [] first_fails) ''api-prod-v1-0-0''
        [LogInfo ''Removing stack for version: v1-0-0''] = Some ''denied''
   \<and> fst (retire_loop (example_aws [] first_fails) ''api'' ''prod''
        [example_stage 0 ''v1-0-0'', example_stage 1 ''v1-1-0''] []) = Inr ()
   \<and> snd (retire_loop (example_aws [] first_fails) ''api'' ''prod''
        [example_stage 0 ''v1-0-0'', example_stage 1 ''v1-1-0''] [])
       = [LogInfo ''Removing stack for version: v1-0-0'',
          DeleteStack ''api-prod-v1-0-0'',
          LogError ''Warning: Error removing version v1-0-0: denied'',
          LogInfo ''Removing stack for version: v1-1-0'',
          DeleteStack ''api-prod-v1-1-0'',
          WaitFor ''api-prod-v1-1-0'',
          LogSuccess ''Successfully removed stack for version: v1-1-0'']"
proof -
  have n: "stageName (example_stage 0 ''v1-0-0'') = Some ''v1-0-0''"
    by (simp add: example_stage_def)
  have t: "tags (example_stage 0 ''v1-0-0'') = Some (Tags (Some ''v1-0-0''))"
    by (simp add: example_stage_def)
  have r: "rejection (example_aws [] first_fails) (aliasStackName ''api'' ''prod'' ''v1-0-0'')
             (snd (retire_loop (example_aws [] first_fails) ''api'' ''prod'' [] [])
                @ [LogInfo (''Removing stack for version: '' @ ''v1-0-0'')]) = Some ''denied''"
    by (simp add: rejection_def example_aws_def first_fails_def aliasStackName_def)
  have ret: "fst (retire_loop (example_aws [] first_fails) ''api'' ''prod''
        ([] @ example_stage 0 ''v1-0-0'' # [example_stage 1 ''v1-1-0'']) []) = Inr ()"
    using cleanup_failure_isolation [OF n t r, of "[example_stage 1 ''v1-1-0'']"] by blast
  have tr: "snd (retire_loop (example_aws [] first_fails) ''api'' ''prod''
        [example_stage 0 ''v1-0-0'', example_stage 1 ''v1-1-0''] [])
       = [LogInfo ''Removing stack for version: v1-0-0'',
          DeleteStack ''api-prod-v1-0-0'',
          LogError ''Warning: Error removing version v1-0-0: denied'',
          LogInfo ''Removing stack for version: v1-1-0'',
          DeleteStack ''api-prod-v1-1-0'',
          WaitFor ''api-prod-v1-1-0'',
          LogSuccess ''Successfully removed stack for version: v1-1-0'']"
    by (simp add: retire_one_def try_remove_def example_aws_def first_fails_def
          aliasStackName_def example_stage_def)
  have rj: "rejection (example_aws [] first_fails) ''api-prod-v1-0-0''
        [LogInfo ''Removing stack for version: v1-0-0''] = Some ''denied''"
    by (simp add: rejection_def example_aws_def first_fails_def)
  from n t rj ret tr show ?thesis by simp
qed

section \<open>What a cleanup run reports\<close>

lemma retire_one_closing:
  "length (filter closing (snd (retire_one w svc stg s tr))) = Suc (length (filter closing tr))"
  by (simp add: retire_one_def try_remove_def Let_def closing_def starts_with_def
      split: option.splits prod.splits sum.splits)

lemma retire_loop_closing:
  "length (filter closing (snd (retire_loop w svc stg ss tr))) = length (filter closing tr) + length ss"
  by (induction ss arbitrary: tr)
     (simp_all add: retire_loop_Cons retire_one_closing del: retire_loop.simps(2))

lemmas sort_eval =
  sort_js_def sort_short_def count_and_make_run_def insert_pivot_def find_place.simps
  binary_insertion_sort.simps Let_def

lemmas run_eval =
  cleanupVersions_def getStagesInOrder_def example_aws_def example_config_def
  first_outputs_def restApiId_of_def is_version_stage_def sort_eval semverSort_def
  b_component_def components_eval at_index_def stagesToDelete_def stagesToKeep_def
  includes_js_def retire_one_def try_remove_def aliasStackName_def example_stage_def
  first_fails_def no_failure_def

lemma example_registry:
  "getStagesInOrder (example_config 1 ''v1-3-0'') (example_aws three_versions first_fails)
     = Inr (Some three_versions)"
  by (simp add: run_eval three_versions_def)

lemma example_cleanup:
  "cleanupVersions (example_config 1 ''v1-3-0'') (example_aws three_versions first_fails)
     = (Inr (),
        [LogInfo ''Removing stack for version: v1-0-0'',
         DeleteStack ''api-prod-v1-0-0'',
         LogError ''Warning: Error removing version v1-0-0: denied'',
         LogInfo ''Removing stack for version: v1-1-0'',
         DeleteStack ''api-prod-v1-1-0'',
         WaitFor ''api-prod-v1-1-0'',
         LogSuccess ''Successfully removed stack for version: v1-1-0''])"
  by (simp add: run_eval three_versions_def)

text \<open>
  Claim C5, as stated, fails: \<open>cleanupVersions\<close> returns no report. With three deployed
  versions and a retention count of one, the two oldest are retired, the first delete
  is rejected and the second succeeds; the promise resolves with \<open>undefined\<close> (the unit
  value), and the two outcomes are to be found in the log only.
\<close>

theorem cleanup_returns_no_report:
  "cleanupVersions (example_config 1 ''v1-3-0'') (example_aws three_versions first_fails)
     = (Inr (),
        [LogInfo ''Removing stack for version: v1-0-0'',
         DeleteStack ''api-prod-v1-0-0'',
         LogError ''Warning: Error removing version v1-0-0: denied'',
         LogInfo ''Removing stack for version: v1-1-0'',
         DeleteStack ''api-prod-v1-1-0'',
         WaitFor ''api-prod-v1-1-0'',
         LogSuccess ''Successfully removed stack for version: v1-1-0''])"
  by (rule example_cleanup)

text \<open>
  Claim C5, amended. Every cleanup run that reaches the retirement loop returns
  normally and without a value; what it reports is in the log, where each retired
  record leaves exactly one closing line: the success line, an error line, or the line
  for a missing \<open>ALIAS\<close>. In the run above, whose first delete fails and whose second
  succeeds, the log holds exactly one error line and exactly one success line.
\<close>

theorem cleanup_outcomes_in_log:
  assumes "service cfg = Some svc" "getStagesInOrder cfg w = Inr (Some ordered)"
  shows "fst (cleanupVersions cfg w) = Inr ()
       \<and> length (filter closing (snd (cleanupVersions cfg w)))
           = length (stagesToDelete (retainPolicy cfg) ordered)
       \<and> length (filter is_LogError
            (snd (cleanupVersions (example_config 1 ''v1-3-0'') (example_aws three_versions first_fails)))) = 1
       \<and> length (filter is_LogSuccess
            (snd (cleanupVersions (example_config 1 ''v1-3-0'') (example_aws three_versions first_fails)))) = 1"
proof -
  have "fst (cleanupVersions cfg w) = Inr ()"
    using assms by (simp add: cleanupVersions_def retire_loop_returns)
  moreover have "length (filter closing (snd (cleanupVersions cfg w)))
           = length (stagesToDelete (retainPolicy cfg) ordered)"
    using assms by (simp add: cleanupVersions_def retire_loop_closing)
  moreover have "length (filter is_LogError
            (snd (cleanupVersions (example_config 1 ''v1-3-0'') (example_aws three_versions first_fails)))) = 1"
    by (subst example_cleanup) (simp add: is_LogError_def)
  moreover have "length (filter is_LogSuccess
            (snd (cleanupVersions (example_config 1 ''v1-3-0'') (example_aws three_versions first_fails)))) = 1"
    by (subst example_cleanup) (simp add: is_LogSuccess_def)
  ultimately show ?thesis by simp
qed

theorem cleanup_outcomes_in_log_witness:
  "service (example_config 1 ''v1-3-0'') = Some ''api''
   \<and> getStagesInOrder (example_config 1 ''v1-3-0'') (example_aws three_versions first_fails)
       = Inr (Some three_versions)
   \<and> fst (cleanupVersions (example_config 1 ''v1-3-0'') (example_aws three_versions first_fails)) = Inr ()
   \<and> length (filter closing
        (snd (cleanupVersions (example_config 1 ''v1-3-0'') (example_aws three_versions first_fails)))) = 2"
proof -
  have s: "service (example_config 1 ''v1-3-0'') = Some ''api''"
    by (simp add: example_config_def)
  have d: "length (stagesToDelete (retainPolicy (example_config 1 ''v1-3-0'')) three_versions) = 2"
    by (simp add: stagesToDelete_def stagesToKeep_def includes_js_def three_versions_def
          example_config_def example_stage_def)
  from cleanup_outcomes_in_log [OF s example_registry] s example_registry d
  show ?thesis by simp
qed

section \<open>Properties of validateVersion\<close>

subsection \<open>Errors of the registry query\<close>

lemma semver_reduce_error:
  "semver_reduce b cs i acc = Inl e \<Longrightarrow> \<exists>m. e = TypeError m"
  by (induction b cs i acc rule: semver_reduce.induct)
     (auto simp: b_component_def split: if_splits sum.splits option.splits)

lemma semverSort_error: "semverSort a b = Inl e \<Longrightarrow> \<exists>m. e = TypeError m"
  by (auto simp: semverSort_def split: option.splits dest: semver_reduce_error)

text \<open>The sort raises nothing of its own: what leaves it has left the comparator.\<close>

lemma run_extend_error:
  assumes "\<And>x y e. cmp x y = Inl e \<Longrightarrow> P e"
  shows "run_extend cmp desc prev cs = Inl e \<Longrightarrow> P e"
  by (induction cs arbitrary: prev) (auto split: sum.splits if_splits dest: assms)

lemma count_and_make_run_error:
  assumes "\<And>x y e. cmp x y = Inl e \<Longrightarrow> P e"
  shows "count_and_make_run cmp xs = Inl e \<Longrightarrow> P e"
  using run_extend_error [of cmp P, OF assms]
  by (auto simp: count_and_make_run_def Let_def split: list.splits sum.splits dest: assms)

lemma find_place_error:
  "(\<And>x y e. cmp x y = Inl e \<Longrightarrow> P e) \<Longrightarrow> find_place cmp pivot arr left right = Inl e \<Longrightarrow> P e"
proof (induction cmp pivot arr left right rule: find_place.induct)
  case (1 cmp pivot arr left right)
  note c = "1.prems"(1)
  let ?mid = "left + (right - left) div 2"
  show ?case
  proof (cases "left < right")
    case False
    with "1.prems"(2) show ?thesis by (subst (asm) find_place.simps) simp
  next
    case True
    show ?thesis
    proof (cases "cmp pivot (arr ! ?mid)")
      case (Inl e')
      with True "1.prems"(2) have "e = e'"
        by (subst (asm) find_place.simps) (simp add: Let_def)
      with Inl c show ?thesis by blast
    next
      case (Inr order)
      show ?thesis
      proof (cases "negative order")
        case neg: True
        with True Inr "1.prems"(2) have r: "find_place cmp pivot arr left ?mid = Inl e"
          by (subst (asm) find_place.simps) (simp add: Let_def)
        show ?thesis
          by (rule "1.IH"(1) [OF True refl Inr neg]) (erule c, rule r)
      next
        case pos: False
        with True Inr "1.prems"(2) have r: "find_place cmp pivot arr (Suc ?mid) right = Inl e"
          by (subst (asm) find_place.simps) (simp add: Let_def)
        show ?thesis
          by (rule "1.IH"(2) [OF True refl Inr pos]) (erule c, rule r)
      qed
    qed
  qed
qed

lemma insert_pivot_error:
  assumes "\<And>x y e. cmp x y = Inl e \<Longrightarrow> P e"
  shows "insert_pivot cmp arr start = Inl e \<Longrightarrow> P e"
  using find_place_error [of cmp P, OF assms]
  by (auto simp: insert_pivot_def split: sum.splits)

lemma binary_insertion_sort_error:
  "(\<And>x y e. cmp x y = Inl e \<Longrightarrow> P e) \<Longrightarrow> binary_insertion_sort cmp arr start high = Inl e \<Longrightarrow> P e"
proof (induction cmp arr start high rule: binary_insertion_sort.induct)
  case (1 cmp arr start high)
  note c = "1.prems"(1)
  show ?case
  proof (cases "start < high")
    case False
    with "1.prems"(2) show ?thesis by (subst (asm) binary_insertion_sort.simps) simp
  next
    case True
    show ?thesis
    proof (cases "insert_pivot cmp arr start")
      case (Inl e')
      with True "1.prems"(2) have "e = e'"
        by (subst (asm) binary_insertion_sort.simps) simp
      moreover have "P e'"
        by (rule insert_pivot_error [of cmp P]) (erule c, rule Inl)
      ultimately show ?thesis by simp
    next
      case (Inr arr')
      with True "1.prems"(2) have r: "binary_insertion_sort cmp arr' (Suc start) high = Inl e"
        by (subst (asm) binary_insertion_sort.simps) simp
      show ?thesis
        by (rule "1.IH" [OF True Inr]) (erule c, rule r)
    qed
  qed
qed

lemma sort_js_error:
  assumes "\<And>x y e. cmp x y = Inl e \<Longrightarrow> \<exists>m. e = TypeError m"
  shows "sort_js long cmp xs = Inl e \<Longrightarrow> \<exists>m. e = TypeError m"
  using count_and_make_run_error [of cmp "\<lambda>e. \<exists>m. e = TypeError m", OF assms]
    binary_insertion_sort_error [of cmp "\<lambda>e. \<exists>m. e = TypeError m", OF assms]
  by (auto simp: sort_js_def sort_short_def split: if_splits sum.splits prod.splits)

lemma getStagesInOrder_error:
  assumes "getStagesInOrder cfg w = Inl e"
  shows "e = Error ''Service is not defined'' \<or> e = Error ''Rest API ID could not be found''
       \<or> (\<exists>m. e = TypeError m) \<or> (\<exists>m. e = Rejected m)"
proof -
  have srt: "\<exists>m. e' = TypeError m" if "sort_js long semverSort xs = Inl e'" for long xs e'
    using that sort_js_error [of semverSort long xs e'] semverSort_error by blast
  show ?thesis
    using assms
    by (auto simp: getStagesInOrder_def first_outputs_def
        split: option.splits sum.splits list.splits dest: srt)
qed

subsection \<open>validateVersion\<close>

lemma validateVersion_bad_format:
  assumes "env_retainPolicy cfg = Some p" "p \<noteq> []" "apiVersion cfg = Some c"
    and "c \<noteq> []" "\<not> versionRegex_test c"
  shows "validateVersion cfg w = (Inl (Error ''apiVersion must be in format vX-Y-Z (e.g., v3-2-0)''), [])"
  using assms by (simp add: validateVersion_def)

lemma validateVersion_good_format:
  assumes "env_retainPolicy cfg = Some p" "p \<noteq> []" "apiVersion cfg = Some c"
    and "c = [] \<or> versionRegex_test c"
  shows "validateVersion cfg w =
           (case getStagesInOrder cfg w of
              Inl e \<Rightarrow> (Inl e, [])
            | Inr orderedStages \<Rightarrow> validate_last c p orderedStages)"
  using assms by (auto simp add: validateVersion_def)

lemma validate_last_error:
  "fst (validate_last c p os) \<noteq> Inl (Error ''apiVersion must be in format vX-Y-Z (e.g., v3-2-0)'')"
  by (simp add: validate_last_def Let_def split: option.splits list.splits)

lemma num_less_irrefl: "\<not> num_less x x"
  by (cases x) simp_all

lemma isGreater_loop_irrefl: "\<not> isGreater_loop v v i"
proof (induction "length v - i" arbitrary: i)
  case 0
  then show ?case by (subst isGreater_loop.simps) simp
next
  case (Suc k)
  then have "\<not> isGreater_loop v v (Suc i)" by simp
  then show ?case by (subst isGreater_loop.simps) (simp add: Let_def num_less_irrefl)
qed

lemma isGreaterVersion_irrefl: "\<not> isGreaterVersion t t"
  by (simp add: isGreaterVersion_def isGreater_loop_irrefl)


subsection \<open>The language of the version pattern\<close>

lemma not_digit_dash: "\<not> is_digit CHR ''-''"
  by (simp add: is_digit_def)

lemma eat_digits_append:
  assumes "digits x" "r = [] \<or> \<not> is_digit (hd r)"
  shows "eat_digits (x @ r) = Some r"
proof -
  have all: "\<And>c. c \<in> set x \<Longrightarrow> is_digit c"
    using assms(1) by (simp add: digits_def list_all_iff)
  have r: "takeWhile is_digit r = []" "dropWhile is_digit r = r"
    using assms(2) by (cases r; simp)+
  have "takeWhile is_digit (x @ r) = x" "dropWhile is_digit (x @ r) = r"
    using all r by simp_all
  then show ?thesis
    using assms(1) by (simp add: eat_digits_def digits_def)
qed

lemma eat_digits_SomeD:
  assumes "eat_digits s = Some r"
  shows "\<exists>x. s = x @ r \<and> digits x"
proof -
  from assms have ne: "takeWhile is_digit s \<noteq> []" and r: "r = dropWhile is_digit s"
    by (auto simp: eat_digits_def split: if_splits)
  have "list_all is_digit (takeWhile is_digit s)"
    by (auto simp: list_all_iff dest: set_takeWhileD)
  with ne have "digits (takeWhile is_digit s)" by (simp add: digits_def)
  moreover have "s = takeWhile is_digit s @ r" by (simp add: r)
  ultimately show ?thesis by blast
qed

lemma eat_char_Some: "(eat_char c ro = Some r) = (ro = Some (c # r))"
  by (auto simp: eat_char_def split: option.splits list.splits)

lemma versionRegex_test_iff:
  "versionRegex_test s =
     (\<exists>x y z. s = CHR ''v'' # x @ CHR ''-'' # y @ CHR ''-'' # z \<and> digits x \<and> digits y \<and> digits z)"
proof
  assume "versionRegex_test s"
  then obtain r1 r2 r3 where
    1: "eat_char (CHR ''v'') (Some s) = Some r1" and
    2: "eat_char (CHR ''-'') (eat_digits r1) = Some r2" and
    3: "eat_char (CHR ''-'') (eat_digits r2) = Some r3" and
    4: "eat_digits r3 = Some []"
    by (auto simp: versionRegex_test_def split: option.splits)
  from 1 have s: "s = CHR ''v'' # r1" by (simp add: eat_char_Some)
  from 2 have "eat_digits r1 = Some (CHR ''-'' # r2)" by (simp add: eat_char_Some)
  then obtain x where x: "r1 = x @ CHR ''-'' # r2" "digits x" using eat_digits_SomeD by blast
  from 3 have "eat_digits r2 = Some (CHR ''-'' # r3)" by (simp add: eat_char_Some)
  then obtain y where y: "r2 = y @ CHR ''-'' # r3" "digits y" using eat_digits_SomeD by blast
  from 4 obtain z where z: "r3 = z @ []" "digits z" using eat_digits_SomeD by blast
  from s x y z show "\<exists>x y z. s = CHR ''v'' # x @ CHR ''-'' # y @ CHR ''-'' # z \<and> digits x \<and> digits y \<and> digits z"
    by auto
next
  assume "\<exists>x y z. s = CHR ''v'' # x @ CHR ''-'' # y @ CHR ''-'' # z \<and> digits x \<and> digits y \<and> digits z"
  then obtain x y z where s: "s = CHR ''v'' # x @ CHR ''-'' # y @ CHR ''-'' # z"
    and d: "digits x" "digits y" "digits z" by blast
  have 1: "eat_digits (x @ CHR ''-'' # y @ CHR ''-'' # z) = Some (CHR ''-'' # y @ CHR ''-'' # z)"
    using d(1) by (intro eat_digits_append) (simp_all add: not_digit_dash)
  have 2: "eat_digits (y @ CHR ''-'' # z) = Some (CHR ''-'' # z)"
    using d(2) by (intro eat_digits_append) (simp_all add: not_digit_dash)
  have 3: "eat_digits z = Some []"
    using eat_digits_append [OF d(3), of "[]"] by simp
  show "versionRegex_test s"
    by (simp add: versionRegex_test_def s eat_char_def 1 2 3)
qed

subsection \<open>The version gate\<close>

lemmas validate_eval =
  validateVersion_def validate_last_def or_undefined_stage_def versionRegex_test_def
  eat_char_def eat_digits_def is_digit_def getStagesInOrder_def example_aws_def
  example_config_def first_outputs_def restApiId_of_def is_version_stage_def sort_eval
  example_stage_def untagged_stage_def

text \<open>
  Claim C3. Once the configuration and format checks have passed and the last stage of
  the registry carries a readable tag \<open>latest\<close>, \<open>validateVersion\<close> succeeds exactly
  when \<open>isGreaterVersion candidate latest\<close> holds and otherwise fails with the error
  that names both versions. When candidate and tag are valid tokens, that is exactly
  when the candidate compares GREATER than the tag in the version order of the
  specification. The inequality is strict, since no tag is greater than itself;
  \<open>v1-2-0\<close> is greater than \<open>v1-1-9\<close>, and \<open>v2-0-0\<close> than \<open>v1-9-9\<close>.
\<close>

theorem validateVersion_strict_gate:
  assumes "env_retainPolicy cfg = Some p" "p \<noteq> []" "apiVersion cfg = Some c"
    and "c = [] \<or> versionRegex_test c"
    and "getStagesInOrder cfg w = Inr (Some ordered)" "ordered \<noteq> []"
    and "tags (last ordered) = Some (Tags (Some latest))"
  shows "fst (validateVersion cfg w)
           = (if isGreaterVersion c latest then Inr ()
              else Inl (Error (''The version provided: ('' @ c @ '') should be greater than '' @ latest)))
       \<and> (valid_token c \<and> valid_token latest \<longrightarrow>
            fst (validateVersion cfg w)
              = (if compare_tokens (parse_token c) (parse_token latest) = GREATER then Inr ()
                 else Inl (Error (''The version provided: ('' @ c @ '') should be greater than '' @ latest))))
       \<and> \<not> isGreaterVersion latest latest
       \<and> isGreaterVersion ''v1-2-0'' ''v1-1-9''
       \<and> isGreaterVersion ''v2-0-0'' ''v1-9-9''"
proof -
  obtain x xs where o: "ordered = x # xs" using assms(6) by (cases ordered) auto
  have gate: "fst (validateVersion cfg w)
           = (if isGreaterVersion c latest then Inr ()
              else Inl (Error (''The version provided: ('' @ c @ '') should be greater than '' @ latest)))"
    using assms(5,7) unfolding validateVersion_good_format [OF assms(1-4)] o
    by (simp add: validate_last_def Let_def)
  have order: "fst (validateVersion cfg w)
              = (if compare_tokens (parse_token c) (parse_token latest) = GREATER then Inr ()
                 else Inl (Error (''The version provided: ('' @ c @ '') should be greater than '' @ latest)))"
    if "valid_token c" "valid_token latest"
    unfolding gate isGreaterVersion_is_GREATER [OF that] ..
  have e1: "isGreaterVersion ''v1-2-0'' ''v1-1-9''"
    by (simp add: isGreaterVersion_eval)
  have e2: "isGreaterVersion ''v2-0-0'' ''v1-9-9''"
    by (simp add: isGreaterVersion_eval)
  from gate order e1 e2 isGreaterVersion_irrefl [of latest] show ?thesis by blast
qed

theorem validateVersion_strict_gate_witness:
  "env_retainPolicy (example_config 1 ''v1-1-9'') = Some ''2''
   \<and> apiVersion (example_config 1 ''v1-1-9'') = Some ''v1-1-9''
   \<and> versionRegex_test ''v1-1-9''
   \<and> getStagesInOrder (example_config 1 ''v1-1-9'') (example_aws [example_stage 0 ''v1-1-9''] no_failure)
       = Inr (Some [example_stage 0 ''v1-1-9''])
   \<and> tags (last [example_stage 0 ''v1-1-9'']) = Some (Tags (Some ''v1-1-9''))
   \<and> valid_token ''v1-1-9'' \<and> valid_token ''v1-2-0''
   \<and> compare_tokens (parse_token ''v1-1-9'') (parse_token ''v1-1-9'') = EQUAL
   \<and> compare_tokens (parse_token ''v1-2-0'') (parse_token ''v1-1-9'') = GREATER
   \<and> fst (validateVersion (example_config 1 ''v1-1-9'') (example_aws [example_stage 0 ''v1-1-9''] no_failure))
       = Inl (Error ''The version provided: (v1-1-9) should be greater than v1-1-9'')
   \<and> fst (validateVersion (example_config 1 ''v1-2-0'') (example_aws [example_stage 0 ''v1-1-9''] no_failure))
       = Inr ()"
proof -
  let ?w = "example_aws [example_stage 0 ''v1-1-9''] no_failure"
  have p: "env_retainPolicy (example_config 1 c) = Some ''2''" "''2'' \<noteq> []"
    and a: "apiVersion (example_config 1 c) = Some c" for c
    by (simp_all add: example_config_def)
  have f1: "''v1-1-9'' = [] \<or> versionRegex_test ''v1-1-9''"
    and f2: "''v1-2-0'' = [] \<or> versionRegex_test ''v1-2-0''"
    by (simp_all add: versionRegex_test_def eat_char_def eat_digits_def is_digit_def)
  have g: "getStagesInOrder (example_config 1 c) ?w = Inr (Some [example_stage 0 ''v1-1-9''])" for c
    by (simp add: validate_eval)
  have ne: "[example_stage 0 ''v1-1-9''] \<noteq> []" by simp
  have t: "tags (last [example_stage 0 ''v1-1-9'']) = Some (Tags (Some ''v1-1-9''))"
    by (simp add: example_stage_def)
  have v: "valid_token ''v1-1-9''" "valid_token ''v1-2-0''"
    by (simp_all add: token_eval)
  have c1: "compare_tokens (parse_token ''v1-1-9'') (parse_token ''v1-1-9'') = EQUAL"
    and c2: "compare_tokens (parse_token ''v1-2-0'') (parse_token ''v1-1-9'') = GREATER"
    by (simp_all add: token_eval)
  have r1: "fst (validateVersion (example_config 1 ''v1-1-9'') ?w)
       = Inl (Error ''The version provided: (v1-1-9) should be greater than v1-1-9'')"
    using validateVersion_strict_gate [OF p a f1 g ne t] v c1 by simp
  have r2: "fst (validateVersion (example_config 1 ''v1-2-0'') ?w) = Inr ()"
    using validateVersion_strict_gate [OF p a f2 g ne t] v c2 by simp
  from p a f1 g t v c1 c2 r1 r2 show ?thesis by simp
qed

text \<open>
  Claim C10. The guard before the comparison tests the tags object, not the tag: when
  the last stage of the registry has a tags object without \<open>ALIAS\<close>, a run that has
  passed the configuration and format checks enters \<open>isGreaterVersion\<close> with an
  undefined tag and ends in the runtime's TypeError, neither a validation error of
  the plugin nor a skip.
\<close>

theorem validateVersion_untyped_error:
  assumes "env_retainPolicy cfg = Some p" "p \<noteq> []" "apiVersion cfg = Some c"
    and "c = [] \<or> versionRegex_test c"
    and "getStagesInOrder cfg w = Inr (Some ordered)" "ordered \<noteq> []"
    and "tags (last ordered) = Some (Tags None)"
  shows "fst (validateVersion cfg w)
           = Inl (TypeError ''Cannot read properties of undefined (reading replace)'')"
proof -
  obtain x xs where o: "ordered = x # xs" using assms(6) by (cases ordered) auto
  show ?thesis
    using assms(5,7) unfolding validateVersion_good_format [OF assms(1-4)] o
    by (simp add: validate_last_def Let_def)
qed

theorem validateVersion_untyped_error_witness:
  "env_retainPolicy (example_config 1 ''v1-0-0'') = Some ''2''
   \<and> apiVersion (example_config 1 ''v1-0-0'') = Some ''v1-0-0''
   \<and> versionRegex_test ''v1-0-0''
   \<and> getStagesInOrder (example_config 1 ''v1-0-0'') (example_aws [untagged_stage 0 ''v2-0-0''] no_failure)
       = Inr (Some [untagged_stage 0 ''v2-0-0''])
   \<and> tags (last [untagged_stage 0 ''v2-0-0'']) = Some (Tags None)
   \<and> fst (validateVersion (example_config 1 ''v1-0-0'') (example_aws [untagged_stage 0 ''v2-0-0''] no_failure))
       = Inl (TypeError ''Cannot read properties of undefined (reading replace)'')"
proof -
  let ?w = "example_aws [untagged_stage 0 ''v2-0-0''] no_failure"
  have p: "env_retainPolicy (example_config 1 ''v1-0-0'') = Some ''2''" "''2'' \<noteq> []"
    and a: "apiVersion (example_config 1 ''v1-0-0'') = Some ''v1-0-0''"
    by (simp_all add: example_config_def)
  have f: "''v1-0-0'' = [] \<or> versionRegex_test ''v1-0-0''"
    by (simp add: versionRegex_test_def eat_char_def eat_digits_def is_digit_def)
  have g: "getStagesInOrder (example_config 1 ''v1-0-0'') ?w = Inr (Some [untagged_stage 0 ''v2-0-0''])"
    by (simp add: validate_eval)
  have ne: "[untagged_stage 0 ''v2-0-0''] \<noteq> []" by simp
  have t: "tags (last [untagged_stage 0 ''v2-0-0'']) = Some (Tags None)"
    by (simp add: untagged_stage_def)
  from validateVersion_untyped_error [OF p a f g ne t] p a f g t show ?thesis by simp
qed

subsection \<open>The format gate\<close>

text \<open>
  Claim C7, as stated, fails: \<open>v1\<close> has the shape \<open>v<int>(-<int>)*\<close>, and
  \<open>validateVersion\<close> refuses it for its format.
\<close>

theorem validateVersion_format_counterexample:
  "spec_shape ''v1''
   \<and> fst (validateVersion (example_config 1 ''v1'') (example_aws [] no_failure))
       = Inl (Error ''apiVersion must be in format vX-Y-Z (e.g., v3-2-0)'')"
  by (simp add: spec_shape_def is_dash_def is_digit_def validateVersion_def example_config_def
      versionRegex_test_def eat_char_def eat_digits_def)

text \<open>
  Claim C7, amended. With the retention policy configured and a non-empty candidate
  supplied, \<open>validateVersion\<close> fails with the format error exactly when the candidate
  is not \<open>v\<close> followed by exactly three runs of digits separated by \<open>-\<close>. In
  particular \<open>1-2-0\<close>, which lacks the marker, is refused for its format whatever the
  registry holds.
\<close>

theorem validateVersion_format_gate:
  assumes "env_retainPolicy cfg = Some p" "p \<noteq> []" "apiVersion cfg = Some c" "c \<noteq> []"
  shows "(fst (validateVersion cfg w) = Inl (Error ''apiVersion must be in format vX-Y-Z (e.g., v3-2-0)''))
           = (\<not> versionRegex_test c)
       \<and> versionRegex_test c
           = (\<exists>x y z. c = CHR ''v'' # x @ CHR ''-'' # y @ CHR ''-'' # z
                \<and> digits x \<and> digits y \<and> digits z)
       \<and> \<not> versionRegex_test ''1-2-0''"
proof -
  have bad: "fst (validateVersion cfg w) = Inl (Error ''apiVersion must be in format vX-Y-Z (e.g., v3-2-0)'')"
    if "\<not> versionRegex_test c"
    using validateVersion_bad_format [OF assms that] by simp
  have good: "fst (validateVersion cfg w) \<noteq> Inl (Error ''apiVersion must be in format vX-Y-Z (e.g., v3-2-0)'')"
    if t: "versionRegex_test c"
  proof (cases "getStagesInOrder cfg w")
    case (Inl e)
    from getStagesInOrder_error [OF this] show ?thesis
      using t assms by (auto simp: validateVersion_good_format [OF assms(1-3)] Inl)
  next
    case (Inr os)
    then show ?thesis
      using t assms validate_last_error [of c p os]
      by (simp add: validateVersion_good_format [OF assms(1-3)])
  qed
  have ex: "\<not> versionRegex_test ''1-2-0''"
    by (simp add: versionRegex_test_def eat_char_def)
  from bad good ex versionRegex_test_iff [of c] show ?thesis by blast
qed

theorem validateVersion_format_gate_witness:
  "env_retainPolicy (example_config 1 ''1-2-0'') = Some ''2''
   \<and> apiVersion (example_config 1 ''1-2-0'') = Some ''1-2-0''
   \<and> fst (validateVersion (example_config 1 ''1-2-0'') (example_aws [] no_failure))
       = Inl (Error ''apiVersion must be in format vX-Y-Z (e.g., v3-2-0)'')"
proof -
  have p: "env_retainPolicy (example_config 1 ''1-2-0'') = Some ''2''" "''2'' \<noteq> []"
    and a: "apiVersion (example_config 1 ''1-2-0'') = Some ''1-2-0''"
    and n: "''1-2-0'' \<noteq> []"
    by (simp_all add: example_config_def)
  from validateVersion_format_gate [OF p a n, of "example_aws [] no_failure"] p a
  show ?thesis by simp
qed

section \<open>The order of the deletions\<close>

text \<open>
  The loop issues its \<open>deleteStack\<close> calls in the order of the list it is given, one
  for each record that it does not skip, whatever AWS answers.
\<close>

lemma retire_one_delete_calls:
  "filter is_DeleteStack (snd (retire_one w svc stg s tr))
     = filter is_DeleteStack tr @ delete_call svc stg s"
  by (simp add: retire_one_def try_remove_def delete_call_def is_DeleteStack_def Let_def
      split: option.splits prod.splits sum.splits)

lemma retire_loop_delete_calls:
  "filter is_DeleteStack (snd (retire_loop w svc stg ss tr))
     = filter is_DeleteStack tr @ concat (map (delete_call svc stg) ss)"
  by (induction ss arbitrary: tr)
     (simp_all add: retire_loop_Cons retire_one_delete_calls del: retire_loop.simps(2))

section \<open>Where the sort comparator agrees with isGreaterVersion\<close>

text \<open>
  On valid tokens \<open>semverSort\<close> answers a positive number exactly when
  \<open>isGreaterVersion\<close> holds: the two agree on what is greater.
\<close>

lemma semver_reduce_truthy: "truthy acc \<Longrightarrow> semver_reduce b cs i acc = Inr acc"
  by (induction cs arbitrary: i) simp_all

lemma compare_tokens_Nil_not_GREATER: "compare_tokens [] zs \<noteq> GREATER"
  by (induction zs) auto

lemma valid_token_bounded: "valid_token s \<Longrightarrow> n \<in> set (parse_token s) \<Longrightarrow> n < 2 ^ 53"
  by (cases s) (auto simp: valid_token_def parse_token_def list_all_iff valid_component_def)

lemma num_sub_small:
  assumes "x < 2 ^ 53" "y < 2 ^ 53"
  shows "num_sub (Num (int x)) (Num (int y)) = Num (int x - int y)"
proof -
  from assms have "int x < 2 ^ 53" "int y < 2 ^ 53"
    by (metis of_nat_less_iff of_nat_numeral of_nat_power)+
  then have "\<bar>int x - int y\<bar> < 2 ^ 53" by linarith
  then show ?thesis by (simp add: to_double_small)
qed

lemma semver_reduce_sign:
  assumes "tags b = Some (Tags (Some sb))" "valid_token sb"
  shows "\<forall>x \<in> set xs. x < 2 ^ 53 \<Longrightarrow>
         \<exists>d. semver_reduce b (map (\<lambda>n. Num (int n)) xs) i (Num 0) = Inr (Num d)
            \<and> (0 < d) = (compare_tokens xs (drop i (parse_token sb)) = GREATER)"
proof (induction xs arbitrary: i)
  case Nil
  show ?case by (simp add: compare_tokens_Nil_not_GREATER)
next
  case (Cons x xs)
  let ?ys = "parse_token sb"
  from Cons.prems have bx: "x < 2 ^ 53" and bxs: "\<forall>x \<in> set xs. x < 2 ^ 53" by simp_all
  note IH = Cons.IH [OF bxs, of "Suc i"]
  have bc: "b_component b i = Inr (at_index (map (\<lambda>n. Num (int n)) ?ys) i)"
    using assms by (simp add: b_component_def valid_token_components)
  show ?case
  proof (cases "i < length ?ys")
    case True
    then have d: "drop i ?ys = ?ys ! i # drop (Suc i) ?ys"
      by (simp add: Cons_nth_drop_Suc)
    from True have "?ys ! i < 2 ^ 53"
      using valid_token_bounded [OF assms(2)] by simp
    then have "num_sub (Num (int x)) (Num (int (?ys ! i))) = Num (int x - int (?ys ! i))"
      using bx by (rule num_sub_small [rotated])
    then have sub: "to_double (int x - int (?ys ! i)) = Num (int x - int (?ys ! i))"
      by simp
    show ?thesis
    proof (cases "x = ?ys ! i")
      case eq: True
      from IH show ?thesis
        using True eq by (simp add: bc at_index_def d sub to_double_small)
    next
      case False
      then show ?thesis
        using True by (auto simp add: bc at_index_def d sub to_double_small semver_reduce_truthy)
    qed
  next
    case False
    then have d: "drop i ?ys = []" "drop (Suc i) ?ys = []" by simp_all
    have sub: "to_double (int x) = Num (int x)"
      using num_sub_small [OF bx, of 0] by simp
    show ?thesis
    proof (cases "x = 0")
      case z: True
      from IH show ?thesis
        using False z by (simp add: bc at_index_def d sub to_double_small)
    next
      case nz: False
      then show ?thesis
        using False by (simp add: bc at_index_def d sub to_double_small semver_reduce_truthy)
    qed
  qed
qed

lemma semverSort_positive_iff:
  assumes "tags a = Some (Tags (Some sa))" "tags b = Some (Tags (Some sb))"
    and "valid_token sa" "valid_token sb"
  shows "\<exists>d. semverSort a b = Inr (Num d) \<and> (0 < d) = isGreaterVersion sa sb"
proof -
  have "\<forall>x \<in> set (parse_token sa). x < 2 ^ 53"
    using valid_token_bounded [OF assms(3)] by blast
  from semver_reduce_sign [OF assms(2,4) this, of 0] assms show ?thesis
    by (simp add: semverSort_def valid_token_components isGreaterVersion_is_GREATER)
qed

section \<open>Where the sort comparator departs from the version order\<close>

text \<open>
  Claim C4 fails on the code. \<open>semverSort\<close> walks the components of its first argument
  only: it pads a shorter second argument with zeros, and never looks at the components
  that a longer second argument has beyond the first. For the valid tokens \<open>v1\<close> and
  \<open>v1-0-1\<close> it answers \<open>0\<close> one way and \<open>1\<close> the other way, so it is not antisymmetric,
  while \<open>isGreaterVersion\<close> and the comparison of the specification order \<open>v1\<close> strictly
  before \<open>v1-0-1\<close>.
\<close>

theorem semverSort_not_antisymmetric:
  "valid_token ''v1'' \<and> valid_token ''v1-0-1''
   \<and> semverSort (example_stage 0 ''v1'') (example_stage 1 ''v1-0-1'') = Inr (Num 0)
   \<and> semverSort (example_stage 1 ''v1-0-1'') (example_stage 0 ''v1'') = Inr (Num 1)
   \<and> isGreaterVersion ''v1-0-1'' ''v1''
   \<and> compare_tokens (parse_token ''v1'') (parse_token ''v1-0-1'') = LESS"
proof -
  have "valid_token ''v1''" "valid_token ''v1-0-1''"
    by (simp_all add: token_eval)
  moreover have "semverSort (example_stage 0 ''v1'') (example_stage 1 ''v1-0-1'') = Inr (Num 0)"
    by (simp add: semverSort_def b_component_def example_stage_def components_eval at_index_def)
  moreover have "semverSort (example_stage 1 ''v1-0-1'') (example_stage 0 ''v1'') = Inr (Num 1)"
    by (simp add: semverSort_def b_component_def example_stage_def components_eval at_index_def)
  moreover have "isGreaterVersion ''v1-0-1'' ''v1''"
    by (simp add: isGreaterVersion_eval)
  moreover have "compare_tokens (parse_token ''v1'') (parse_token ''v1-0-1'') = LESS"
    by (simp add: token_eval)
  ultimately show ?thesis by simp
qed

text \<open>
  Claim C6 fails on the code. The loop would skip a stage without \<open>ALIAS\<close>, but the run
  does not reach the loop: \<open>getStagesInOrder\<close> sorts with \<open>semverSort\<close>, which reads
  \<open>ALIAS\<close> of both stages unguarded. With one tagged and one untagged version stage, in
  either order of discovery, the cleanup run as a whole fails with a TypeError and
  nothing is retired or logged.
\<close>

theorem cleanup_fails_on_missing_alias:
  "cleanupVersions (example_config 1 ''v3-0-0'')
     (example_aws [example_stage 0 ''v1-0-0'', untagged_stage 1 ''v2-0-0''] no_failure)
     = (Inl (TypeError ''Cannot read properties of undefined (reading replace)''), [])
   \<and> cleanupVersions (example_config 1 ''v3-0-0'')
     (example_aws [untagged_stage 1 ''v2-0-0'', example_stage 0 ''v1-0-0''] no_failure)
     = (Inl (TypeError ''Cannot read properties of undefined (reading replace)''), [])"
  by (simp add: run_eval untagged_stage_def)

text \<open>
  Claim C9 fails on the code, by the same defect of \<open>semverSort\<close>. The registry returns
  the versions \<open>v1-0-1\<close>, \<open>v1\<close> and \<open>v9\<close> in this order; the sort leaves them so, although
  \<open>v1-0-1\<close> is greater than \<open>v1\<close>; with a retention count of one, the stack of the newer
  \<open>v1-0-1\<close> is deleted before that of the older \<open>v1\<close>.
\<close>

theorem cleanup_order_not_ascending:
  "getStagesInOrder (example_config 1 ''v9-0-1'') (example_aws uneven_versions no_failure)
     = Inr (Some uneven_versions)
   \<and> filter is_DeleteStack
        (snd (cleanupVersions (example_config 1 ''v9-0-1'') (example_aws uneven_versions no_failure)))
       = [DeleteStack ''api-prod-v1-0-1'', DeleteStack ''api-prod-v1'']
   \<and> isGreaterVersion ''v1-0-1'' ''v1''"
proof -
  have "getStagesInOrder (example_config 1 ''v9-0-1'') (example_aws uneven_versions no_failure)
     = Inr (Some uneven_versions)"
    by (simp add: run_eval uneven_versions_def)
  moreover have "filter is_DeleteStack
        (snd (cleanupVersions (example_config 1 ''v9-0-1'') (example_aws uneven_versions no_failure)))
       = [DeleteStack ''api-prod-v1-0-1'', DeleteStack ''api-prod-v1'']"
    by (simp add: run_eval uneven_versions_def is_DeleteStack_def)
  moreover have "isGreaterVersion ''v1-0-1'' ''v1''"
    by (simp add: isGreaterVersion_eval)
  ultimately show ?thesis by simp
qed

section \<open>Doubles and the sort at particular inputs\<close>

text \<open>
  \<open>Number\<close> reads more than runs of digits, and reads a long run of digits as the
  nearest double.
\<close>

lemmas pieces_eval =
  components_def split_sep_def is_sep_def Number_js_def trim_def is_space_def
  is_digit_def decimal_def digit_val_def Let_def

lemmas literal_eval =
  radix_literal_def radix_digits_def radix_value_def radix_digit_val_def
  decimal_literal_def digits_def

lemma to_double_examples:
  "to_double 9007199254740993 = Num 9007199254740992"
  "to_double 9007199254740992 = Num 9007199254740992"
proof -
  have b: "bit_length 9007199254740993 = 54" "bit_length 9007199254740992 = 54"
    by (simp_all add: bit_length.simps)
  show "to_double 9007199254740993 = Num 9007199254740992"
    by (simp add: to_double_def Let_def b)
  show "to_double 9007199254740992 = Num 9007199254740992"
    by (simp add: to_double_def Let_def b)
qed

lemma Number_js_examples:
  "Number_js ''9007199254740993'' = Num 9007199254740992"
  "Number_js ''1e3'' = Num 1000"
  "Number_js ''0x10'' = Num 16"
  "Number_js '' 5'' = Num 5"
  "Number_js ''+5'' = Num 5"
  "Number_js ''Infinity'' = PosInf"
  "Number_js ''abc'' = NaN"
  "Number_js [] = Num 0"
  by (simp_all add: pieces_eval literal_eval to_double_examples to_double_small)

text \<open>
  So \<open>2^53 + 1\<close> is not greater than \<open>2^53\<close> for \<open>isGreaterVersion\<close>, and \<open>999\<close> is not
  greater than \<open>1e3\<close>.
\<close>

lemma isGreaterVersion_examples:
  "\<not> isGreaterVersion ''v9007199254740993-0-0'' ''v9007199254740992-0-0''"
  "\<not> isGreaterVersion ''v999-0-0'' ''v1e3''"
  by (simp_all add: isGreaterVersion_def pieces_eval literal_eval to_double_examples
      to_double_small isGreater_loop.simps at_index_def or_zero_def)

text \<open>
  With tags of unequal length the comparator is inconsistent and the result of the sort
  is that of V8's sequence of calls: the run \<open>v1-0-5, v0\<close> descends and is reversed,
  \<open>v1\<close> stays behind \<open>v1-0-5\<close>, and \<open>v1-0-3\<close> goes between \<open>v0\<close> and \<open>v1-0-5\<close>. The
  last stage is then \<open>v1\<close>, and a candidate \<open>v1-0-2\<close> is accepted.
\<close>

lemma sort_js_example:
  "sort_js long semverSort mixed_versions
     = Inr [example_stage 1 ''v0'', example_stage 3 ''v1-0-3'', example_stage 0 ''v1-0-5'',
            example_stage 2 ''v1'']"
  by (simp add: mixed_versions_def sort_eval semverSort_def b_component_def components_eval
      at_index_def example_stage_def)

lemma validateVersion_example:
  "fst (validateVersion (example_config 1 ''v1-0-2'') (example_aws mixed_versions no_failure))
     = Inr ()"
  by (simp add: mixed_versions_def validate_eval semverSort_def b_component_def
      isGreaterVersion_eval)


end
